theory Spec2Isabelle
  imports Complex_Main "HOL-Library.Sublist" "HOL-Library.Char_ord" "HOL-Library.List_Lexorder"
begin

section \<open>Python values and built-ins used by the package\<close>

text \<open>
  Exceptions are values. Every function of the package that can raise returns
  \<open>error + 'a\<close>, with \<open>Inl\<close> for the exception. The exception raised by
  \<open>get_img_prefix\<close> has the message \<open>f"Image Prefixes Found - {result}"\<close>; the model keeps
  the list \<open>result\<close> that the message is formatted from. \<open>OSError\<close> is raised by an
  \<open>open\<close> for writing that fails, \<open>JSONDecodeError\<close> by \<open>json.load\<close>, and \<open>External\<close>
  stands for any exception raised inside zarr or s3fs.
\<close>

datatype error =
    IndexError
  | KeyError
  | AttributeError
  | ValueError
  | FileNotFoundError
  | OSError
  | JSONDecodeError
  | Image_Prefixes_Found "string list"
  | External string

definition bind :: "error + 'a \<Rightarrow> ('a \<Rightarrow> error + 'b) \<Rightarrow> error + 'b" where
  "bind m f = (case m of Inl e \<Rightarrow> Inl e | Inr x \<Rightarrow> f x)"

fun map_err :: "('a \<Rightarrow> error + 'b) \<Rightarrow> 'a list \<Rightarrow> error + 'b list" where
  "map_err f [] = Inr []"
| "map_err f (x # xs) = bind (f x) (\<lambda>y. bind (map_err f xs) (\<lambda>ys. Inr (y # ys)))"

text \<open>\<open>xs[i]\<close>: a negative index counts from the end, an index out of range raises.\<close>

definition getitem :: "'a list \<Rightarrow> int \<Rightarrow> error + 'a" where
  "getitem xs i =
     (if 0 \<le> i \<and> i < int (length xs) then Inr (xs ! nat i)
      else if i < 0 \<and> - int (length xs) \<le> i then Inr (xs ! nat (int (length xs) + i))
      else Inl IndexError)"

text \<open>
  A string is a sequence of characters with code points below 256, compared by code
  point. \<open>s.split(sep)\<close> scans from the left and cuts at every occurrence of \<open>sep\<close>; the
  package only ever passes the separator \<open>"/"\<close>, and the empty separator (a
  \<open>ValueError\<close> in Python) is outside the model.
\<close>

function split_from :: "string \<Rightarrow> string \<Rightarrow> string \<Rightarrow> string list" where
  "split_from sep cur [] = [rev cur]"
| "split_from sep cur (c # cs) =
     (if sep \<noteq> [] \<and> prefix sep (c # cs)
      then rev cur # split_from sep [] (drop (length sep) (c # cs))
      else split_from sep (c # cur) cs)"
  by pat_completeness auto
termination
  by (relation "measure (\<lambda>(sep, cur, s). length s)") auto

definition str_split :: "string \<Rightarrow> string \<Rightarrow> string list" where
  "str_split s sep = split_from sep [] s"

text \<open>\<open>s.replace(old, new)\<close>: every non-overlapping occurrence, from the left.\<close>

function replace_from :: "string \<Rightarrow> string \<Rightarrow> string \<Rightarrow> string" where
  "replace_from old new [] = []"
| "replace_from old new (c # cs) =
     (if old \<noteq> [] \<and> prefix old (c # cs)
      then new @ replace_from old new (drop (length old) (c # cs))
      else c # replace_from old new cs)"
  by pat_completeness auto
termination
  by (relation "measure (\<lambda>(old, new, s). length s)") auto

definition str_replace :: "string \<Rightarrow> string \<Rightarrow> string \<Rightarrow> string" where
  "str_replace s old new =
     (if old = [] then new @ concat (map (\<lambda>c. c # new) s) else replace_from old new s)"

text \<open>\<open>s.rstrip(chars)\<close> drops every trailing character that occurs in \<open>chars\<close>.\<close>

definition str_rstrip :: "string \<Rightarrow> string \<Rightarrow> string" where
  "str_rstrip s chars = rev (dropWhile (\<lambda>c. c \<in> set chars) (rev s))"

text \<open>
  \<open>s.lower()\<close>: the upper-case letters below 256 are \<open>A\<close> to \<open>Z\<close> (65 to 90) and the
  letters at 192 to 222 but for the sign at 215; each has its lower-case letter 32 places
  on, and every other character is kept.
\<close>

definition lower_char :: "char \<Rightarrow> char" where
  "lower_char c =
     (let n = of_char c :: nat
      in if (65 \<le> n \<and> n \<le> 90) \<or> (192 \<le> n \<and> n \<le> 222 \<and> n \<noteq> 215) then char_of (n + 32)
         else c)"

definition str_lower :: "string \<Rightarrow> string" where
  "str_lower s = map lower_char s"

text \<open>\<open>a in b\<close> on strings is \<^const>\<open>sublist\<close>, \<open>s.endswith(t)\<close> is \<^const>\<open>suffix\<close>.\<close>

text \<open>\<open>os.path.join(a, b)\<close> of \<open>posixpath\<close>; with three arguments it is applied twice.\<close>

definition path_join :: "string \<Rightarrow> string \<Rightarrow> string" where
  "path_join a b =
     (if prefix ''/'' b then b
      else if a = [] \<or> suffix ''/'' a then a @ b
      else a @ ''/'' @ b)"

text \<open>
  The values a spreadsheet cell can hold: \<open>None\<close>, a boolean, a number or a string,
  with Python's truth value of each.
\<close>

datatype pyvalue = PNone | PBool bool | PNum real | PStr string

fun truthy :: "pyvalue \<Rightarrow> bool" where
  "truthy PNone = False"
| "truthy (PBool b) = b"
| "truthy (PNum x) = (x \<noteq> 0)"
| "truthy (PStr s) = (s \<noteq> [])"

text \<open>An optional string (\<open>None\<close> or a \<open>str\<close>) as a Python value.\<close>

fun of_optional :: "string option \<Rightarrow> pyvalue" where
  "of_optional None = PNone"
| "of_optional (Some s) = PStr s"


section \<open>\<open>io_util\<close>\<close>

text \<open>
  The file system holds the text of every file by its path and, for a path that is no
  file yet, whether a file can be created there (it cannot where the directory is
  missing). \<open>open(path, "r")\<close> raises where there is no file; \<open>open(path, "w")\<close> empties
  the file that is there, or creates one where that is possible, and raises otherwise.
  The empty path cannot be opened. Access permissions are not modelled: a file that
  exists can be read and written.
\<close>

record filesystem =
  files :: "string \<rightharpoonup> string"
  creatable :: "string \<Rightarrow> bool"

definition open_read :: "filesystem \<Rightarrow> string \<Rightarrow> error + string" where
  "open_read fs path =
     (if path = [] then Inl FileNotFoundError
      else case files fs path of
             None \<Rightarrow> Inl FileNotFoundError
           | Some text \<Rightarrow> Inr text)"

definition open_write :: "filesystem \<Rightarrow> string \<Rightarrow> error + filesystem" where
  "open_write fs path =
     (if path \<noteq> [] \<and> (files fs path \<noteq> None \<or> creatable fs path)
      then Inr (fs\<lparr>files := (files fs)(path \<mapsto> [])\<rparr>)
      else Inl OSError)"

text \<open>
  The module \<open>json\<close> is a parameter of \<open>read_json\<close> and \<open>write_json\<close>: \<open>json_dump\<close>
  renders a document of type \<open>'j\<close> as text, \<open>json_load\<close> parses text or raises.
\<close>

record 'j json =
  json_dump :: "'j \<Rightarrow> string"
  json_load :: "string \<Rightarrow> error + 'j"

definition read_json :: "'j json \<Rightarrow> filesystem \<Rightarrow> string \<Rightarrow> error + 'j" where
  "read_json js fs path = bind (open_read fs path) (json_load js)"

definition write_json :: "'j json \<Rightarrow> filesystem \<Rightarrow> string \<Rightarrow> 'j \<Rightarrow> error + filesystem" where
  "write_json js fs path contents =
     bind (open_write fs path)
       (\<lambda>fs'. Inr (fs'\<lparr>files := (files fs')(path \<mapsto> json_dump js contents)\<rparr>))"


subsection \<open>The module \<open>json\<close> of the standard library, on flat objects of strings\<close>

text \<open>
  A dictionary from strings to strings, in insertion order: every key occurs once.
  \<open>d[k] = v\<close> replaces the value of a key that is there and appends a new key.
\<close>

type_synonym dict = "(string \<times> string) list"

definition dict_set :: "dict \<Rightarrow> string \<Rightarrow> string \<Rightarrow> dict" where
  "dict_set d k v =
     (if k \<in> fst ` set d then map (\<lambda>(k', v'). if k' = k then (k', v) else (k', v')) d
      else d @ [(k, v)])"

text \<open>
  \<open>json.dump\<close> with its default arguments writes \<open>{"k1": "v1", "k2": "v2"}\<close>. Inside a
  string, the double quote (\<open>0x22\<close>) and the backslash (\<open>0x5C\<close>) are written after a
  backslash, the control characters \<open>0x08\<close>, \<open>0x0C\<close>, \<open>0x0A\<close>, \<open>0x0D\<close>, \<open>0x09\<close> as
  \<open>\b \f \n \r \t\<close>, and every other character outside the range from space to \<open>~\<close> as
  \<open>\u00XX\<close> with two lower-case hexadecimal digits.
\<close>

definition dquote :: char where
  "dquote = CHR 0x22"

definition backslash :: char where
  "backslash = CHR 0x5C"

definition short_escapes :: "(char \<times> char) list" where
  "short_escapes =
     [(CHR 0x22, CHR 0x22), (CHR 0x5C, CHR 0x5C), (CHR 0x08, CHR ''b''), (CHR 0x0C, CHR ''f''),
      (CHR 0x0A, CHR ''n''), (CHR 0x0D, CHR ''r''), (CHR 0x09, CHR ''t'')]"

definition hex2 :: "char \<Rightarrow> string" where
  "hex2 c =
     [''0123456789abcdef'' ! (of_char c div 16), ''0123456789abcdef'' ! (of_char c mod 16)]"

definition escape_char :: "char \<Rightarrow> string" where
  "escape_char c =
     (case map_of short_escapes c of
        Some e \<Rightarrow> [backslash, e]
      | None \<Rightarrow>
          if c < CHR '' '' \<or> CHR ''~'' < c
          then [backslash, CHR ''u'', CHR ''0'', CHR ''0''] @ hex2 c
          else [c])"

definition quote :: "string \<Rightarrow> string" where
  "quote s = dquote # concat (map escape_char s) @ [dquote]"

definition member :: "string \<times> string \<Rightarrow> string" where
  "member kv = quote (fst kv) @ '': '' @ quote (snd kv)"

fun members :: "dict \<Rightarrow> string" where
  "members [] = []"
| "members [kv] = member kv"
| "members (kv # rest) = member kv @ '', '' @ members rest"

definition json_dumps :: "dict \<Rightarrow> string" where
  "json_dumps d = ''{'' @ members d @ ''}''"

text \<open>
  \<open>json.load\<close> on the text of a flat object of strings. Between the tokens it skips
  spaces, tabs, line feeds and carriage returns. Inside a string it reads up to the
  closing quote: a backslash is followed by one of \<open>" \ / b f n r t\<close> or by \<open>u\<close> and four
  hexadecimal digits, and a control character below \<open>0x20\<close> is refused. When a key
  occurs twice, the later value stands. A text that is not well-formed raises
  \<open>JSONDecodeError\<close>. Outside the model, and read as that error too: a text whose value
  is not an object, an object with a value that is not a string, and an escape \<open>\uXXXX\<close>
  of a code point above 255.
\<close>

definition backslash_table :: "(char \<times> char) list" where
  "backslash_table =
     [(CHR 0x22, CHR 0x22), (CHR 0x5C, CHR 0x5C), (CHR ''/'', CHR ''/''), (CHR ''b'', CHR 0x08),
      (CHR ''f'', CHR 0x0C), (CHR ''n'', CHR 0x0A), (CHR ''r'', CHR 0x0D), (CHR ''t'', CHR 0x09)]"

definition hex_val :: "char \<Rightarrow> nat option" where
  "hex_val c = map_of (zip ''0123456789abcdefABCDEF'' ([0..<16] @ [10..<16])) c"

definition decode_u :: "string \<Rightarrow> char option" where
  "decode_u esc =
     (case map hex_val esc of
        [Some a, Some b, Some c, Some d] \<Rightarrow>
          (let uni = ((a * 16 + b) * 16 + c) * 16 + d
           in if uni < 256 then Some (char_of uni) else None)
      | _ \<Rightarrow> None)"

text \<open>
  \<open>scanstring\<close> reads a string from behind its opening quote and returns it with the
  text behind its closing quote.
\<close>

function scanstring :: "string \<Rightarrow> (string \<times> string) option" where
  "scanstring [] = None"
| "scanstring (c # s) =
     (if c = dquote then Some ([], s)
      else if c = backslash
      then (case s of
              [] \<Rightarrow> None
            | esc # s' \<Rightarrow>
                if esc = CHR ''u''
                then (case decode_u (take 4 s') of
                        None \<Rightarrow> None
                      | Some ch \<Rightarrow> map_option (apfst ((#) ch)) (scanstring (drop 4 s')))
                else (case map_of backslash_table esc of
                        None \<Rightarrow> None
                      | Some ch \<Rightarrow> map_option (apfst ((#) ch)) (scanstring s')))
      else if c < CHR '' '' then None
      else map_option (apfst ((#) c)) (scanstring s))"
  by pat_completeness auto
termination
  by (relation "measure length") auto

definition skip_ws :: "string \<Rightarrow> string" where
  "skip_ws s = dropWhile (\<lambda>c. c \<in> set [CHR '' '', CHR 0x09, CHR 0x0A, CHR 0x0D]) s"

text \<open>
  \<open>parse_members\<close> reads the members of an object from the opening quote of a key and
  returns them with the text behind the closing brace.
\<close>

function parse_members :: "string \<Rightarrow> (dict \<times> string) option" where
  "parse_members s =
     (case s of
        [] \<Rightarrow> None
      | c # s1 \<Rightarrow>
          if c \<noteq> dquote then None
          else (case scanstring s1 of
                  None \<Rightarrow> None
                | Some (key, s2) \<Rightarrow>
                    (case skip_ws s2 of
                       [] \<Rightarrow> None
                     | c2 # s3 \<Rightarrow>
                         if c2 \<noteq> CHR '':'' then None
                         else (case skip_ws s3 of
                                 [] \<Rightarrow> None
                               | c3 # s4 \<Rightarrow>
                                   if c3 \<noteq> dquote then None
                                   else (case scanstring s4 of
                                           None \<Rightarrow> None
                                         | Some (val, s5) \<Rightarrow>
                                             (case skip_ws s5 of
                                                [] \<Rightarrow> None
                                              | c5 # s6 \<Rightarrow>
                                                  if c5 = CHR ''}'' then Some ([(key, val)], s6)
                                                  else if c5 = CHR '',''
                                                  then map_option (apfst ((#) (key, val)))
                                                         (parse_members (skip_ws s6))
                                                  else None))))))"
  by pat_completeness auto
termination
proof (relation "measure length", goal_cases)
  case 1
  show ?case by simp
next
  case (2 s c s1 x2 key s2 c2 s3 c3 s4 x2a val s5 c5 s6)
  have scan: "length r < length t" if "scanstring t = Some (x, r)" for t x r
    using that
    by (induction t arbitrary: x r rule: scanstring.induct)
       (fastforce split: if_splits list.splits option.splits)+
  have ws: "length r < length t" if "skip_ws t = a # r" for t a r
  proof -
    have "length (skip_ws t) \<le> length t"
      by (simp add: skip_ws_def length_dropWhile_le)
    with that show ?thesis by simp
  qed
  have "scanstring s1 = Some (key, s2)" and "scanstring s4 = Some (val, s5)"
    using 2 by simp_all
  then have "length s2 < length s1" and "length s5 < length s4"
    by (auto dest: scan)
  moreover have "length s3 < length s2" and "length s4 < length s3" and "length s6 < length s5"
    using 2 by (auto dest: ws)
  moreover have "length (skip_ws s6) \<le> length s6"
    by (simp add: skip_ws_def length_dropWhile_le)
  ultimately show ?case using 2 by simp
qed

text \<open>\<open>dict(pairs)\<close>\<close>

definition dict_of_pairs :: "(string \<times> string) list \<Rightarrow> dict" where
  "dict_of_pairs pairs = foldl (\<lambda>d (k, v). dict_set d k v) [] pairs"

definition json_loads :: "string \<Rightarrow> error + dict" where
  "json_loads text =
     (case skip_ws text of
        [] \<Rightarrow> Inl JSONDecodeError
      | c # s \<Rightarrow>
          if c \<noteq> CHR ''{'' then Inl JSONDecodeError
          else (case skip_ws s of
                  [] \<Rightarrow> Inl JSONDecodeError
                | c1 # s1 \<Rightarrow>
                    (case (if c1 = CHR ''}'' then Some ([], s1) else parse_members (c1 # s1)) of
                       None \<Rightarrow> Inl JSONDecodeError
                     | Some (pairs, rest) \<Rightarrow>
                         if skip_ws rest = [] then Inr (dict_of_pairs pairs)
                         else Inl JSONDecodeError)))"

definition python_json :: "dict json" where
  "python_json = \<lparr>json_dump = json_dumps, json_load = json_loads\<rparr>"


section \<open>\<open>s3_util\<close>\<close>

text \<open>
  The S3 client. A request carries the keyword arguments the package passes to
  \<open>list_objects_v2\<close>; a response carries the keys the package reads, \<open>None\<close> where the
  key is absent (\<open>IsTruncated\<close> absent reads as false). \<open>paginate\<close> is the paginator of
  \<open>list_objects_v2\<close>, which yields the pages of one listing, finitely many.

  The source's variables \<open>prefix\<close> and \<open>prefixes\<close> are written \<open>pfx\<close> and \<open>pfxs\<close>
  (the names are constants of the list library), and \<open>brain_id\<close> is the string
  \<open>str(brain_id)\<close>.
\<close>

record request =
  Bucket :: string
  Prefix :: "string option"
  Delimiter :: string
  ContinuationToken :: "string option"

record response =
  CommonPrefixes :: "string list option"
  Contents :: "string list option"
  IsTruncated :: bool
  NextContinuationToken :: "string option"

record s3_client =
  list_objects_v2 :: "request \<Rightarrow> response"
  paginate :: "request \<Rightarrow> response list"

text \<open>\<open>page.get(key, [])\<close>\<close>

definition get_or_empty :: "'a list option \<Rightarrow> 'a list" where
  "get_or_empty v = (case v of None \<Rightarrow> [] | Some xs \<Rightarrow> xs)"

definition exists_in_prefix :: "s3_client \<Rightarrow> string \<Rightarrow> string \<Rightarrow> string \<Rightarrow> bool" where
  "exists_in_prefix s3 bucket_name pfx target_name =
     list_ex (\<lambda>page.
        list_ex (\<lambda>key. last (str_split key ''/'') = target_name)
          (get_or_empty (Contents page))
        \<or> list_ex (\<lambda>common_prefix.
             last (str_split (str_rstrip common_prefix ''/'') ''/'') = target_name)
          (get_or_empty (CommonPrefixes page)))
       (paginate s3
          \<lparr>Bucket = bucket_name, Prefix = Some pfx, Delimiter = ''/'',
           ContinuationToken = None\<rparr>)"

text \<open>
  The body of the inner \<open>for\<close> loop of \<open>list_bucket_prefixes\<close>: which prefixes of one
  response are appended.
\<close>

definition keyword_matches :: "string option \<Rightarrow> string \<Rightarrow> bool" where
  "keyword_matches keyword p =
     (case keyword of
        None \<Rightarrow> True
      | Some k \<Rightarrow> k \<noteq> [] \<and> sublist k (str_lower p))"

definition collect_prefixes :: "string option \<Rightarrow> response \<Rightarrow> string list" where
  "collect_prefixes keyword response =
     filter (keyword_matches keyword) (get_or_empty (CommonPrefixes response))"

text \<open>
  \<open>list_kwargs\<close> as the loop builds it: \<open>if continuation_token:\<close> adds the token only
  when it is a non-empty string.
\<close>

definition list_kwargs :: "string \<Rightarrow> string option \<Rightarrow> request" where
  "list_kwargs bucket_name continuation_token =
     \<lparr>Bucket = bucket_name, Prefix = None, Delimiter = ''/'',
      ContinuationToken =
        (case continuation_token of
           None \<Rightarrow> None
         | Some t \<Rightarrow> if t = [] then None else Some t)\<rparr>"

text \<open>
  The \<open>while True\<close> loop of \<open>list_bucket_prefixes\<close>. It runs for as long as the
  service answers \<open>IsTruncated\<close>, so it is a partial function: \<open>None\<close> is the loop that
  never ends.
\<close>

partial_function (option) list_bucket_prefixes_loop ::
  "s3_client \<Rightarrow> string \<Rightarrow> string option \<Rightarrow> string list \<Rightarrow> string option \<Rightarrow> string list option"
where
  "list_bucket_prefixes_loop s3 bucket_name keyword pfxs continuation_token =
     (let response = list_objects_v2 s3 (list_kwargs bucket_name continuation_token);
          pfxs' = pfxs @ collect_prefixes keyword response
      in if IsTruncated response
         then list_bucket_prefixes_loop s3 bucket_name keyword pfxs'
                (NextContinuationToken response)
         else Some pfxs')"

definition list_bucket_prefixes ::
  "s3_client \<Rightarrow> string \<Rightarrow> string option \<Rightarrow> string list option" where
  "list_bucket_prefixes s3 bucket_name keyword =
     list_bucket_prefixes_loop s3 bucket_name keyword [] None"

text \<open>
  The pages the service answers to the requests of that loop, from a continuation token
  on: the answer to the token, and, while an answer says \<open>IsTruncated\<close>, the answer to
  the token it names.
\<close>

inductive listing :: "s3_client \<Rightarrow> string \<Rightarrow> string option \<Rightarrow> response list \<Rightarrow> bool"
  for s3 :: s3_client and bucket_name :: string where
  last_page:
    "\<not> IsTruncated (list_objects_v2 s3 (list_kwargs bucket_name continuation_token)) \<Longrightarrow>
     listing s3 bucket_name continuation_token
       [list_objects_v2 s3 (list_kwargs bucket_name continuation_token)]"
| next_page:
    "IsTruncated (list_objects_v2 s3 (list_kwargs bucket_name continuation_token)) \<Longrightarrow>
     listing s3 bucket_name
       (NextContinuationToken (list_objects_v2 s3 (list_kwargs bucket_name continuation_token)))
       pages \<Longrightarrow>
     listing s3 bucket_name continuation_token
       (list_objects_v2 s3 (list_kwargs bucket_name continuation_token) # pages)"

definition list_prefixes :: "s3_client \<Rightarrow> string \<Rightarrow> string \<Rightarrow> string list" where
  "list_prefixes s3 bucket_name pfx =
     get_or_empty (CommonPrefixes (list_objects_v2 s3
        \<lparr>Bucket = bucket_name,
         Prefix = Some (if \<not> suffix ''/'' pfx then pfx @ ''/'' else pfx),
         Delimiter = ''/'', ContinuationToken = None\<rparr>))"

text \<open>\<open>map(str, range(0, 8))\<close>\<close>

definition levels :: "string list" where
  "levels = [''0'', ''1'', ''2'', ''3'', ''4'', ''5'', ''6'', ''7'']"

definition is_valid_img_prefix ::
  "s3_client \<Rightarrow> string \<Rightarrow> string \<Rightarrow> string \<Rightarrow> error + bool" where
  "is_valid_img_prefix s3 bucket_name pfx brain_id =
     (let is_test = sublist ''test'' (str_lower pfx);
          has_correct_id = sublist brain_id pfx
      in if \<not> has_correct_id \<or> is_test then Inr False
         else if exists_in_prefix s3 bucket_name pfx ''fused.zarr''
         then bind (map_err (\<lambda>s. getitem (str_split s ''/'') (- 2))
                      (list_prefixes s3 bucket_name (path_join pfx ''fused.zarr'')))
                (\<lambda>multiscales. Inr (list_all (\<lambda>s. s \<in> set multiscales) levels))
         else Inr True)"

text \<open>
  \<open>zarr_open root\<close> stands for \<open>zarr.open(s3fs.S3Map(root, ...), mode="r").shape\<close>: the
  shape of the array stored at \<open>root\<close>, or the exception raised on the way.
  \<open>np.max\<close> of an empty shape raises.
\<close>

definition np_max :: "int list \<Rightarrow> error + int" where
  "np_max xs = (case xs of [] \<Rightarrow> Inl ValueError | x # ys \<Rightarrow> Inr (fold max ys x))"

text \<open>The \<open>try\<close> block: \<open>Inr True\<close> when it returns, \<open>Inr False\<close> when it falls through.\<close>

definition is_shape_plausible_try :: "(string \<Rightarrow> error + int list) \<Rightarrow> string \<Rightarrow> error + bool" where
  "is_shape_plausible_try zarr_open pfx =
     bind (zarr_open (path_join pfx ''0''))
       (\<lambda>shape. bind (np_max shape) (\<lambda>m. Inr (m > 25000)))"

definition is_shape_plausible :: "(string \<Rightarrow> error + int list) \<Rightarrow> string \<Rightarrow> error + bool" where
  "is_shape_plausible zarr_open pfx =
     (case is_shape_plausible_try zarr_open pfx of
        Inl e \<Rightarrow> Inr False
      | Inr True \<Rightarrow> Inr True
      | Inr False \<Rightarrow> Inr False)"

text \<open>
  The body of the \<open>for\<close> loop of \<open>find_img_prefix\<close> at one bucket prefix: the
  prefixes it appends to \<open>valid_prefixes\<close> (one or none).
\<close>

definition find_img_prefix_body ::
  "s3_client \<Rightarrow> (string \<Rightarrow> error + int list) \<Rightarrow> string \<Rightarrow> string \<Rightarrow> error + string list"
where
  "find_img_prefix_body s3 zarr_open brain_id pfx =
     (let prefix1 = (if exists_in_prefix s3 ''aind-open-data'' pfx ''fusion''
                     then path_join pfx ''fusion'' else pfx)
      in bind (is_valid_img_prefix s3 ''aind-open-data'' prefix1 brain_id)
           (\<lambda>valid.
              if valid
              then let prefix2 =
                     path_join (path_join ''s3://aind-open-data'' prefix1) ''fused.zarr''
                   in bind (is_shape_plausible zarr_open prefix2)
                        (\<lambda>plausible. Inr (if plausible then [prefix2] else []))
              else Inr []))"

fun find_img_prefix_loop ::
  "s3_client \<Rightarrow> (string \<Rightarrow> error + int list) \<Rightarrow> string \<Rightarrow> string list \<Rightarrow> string list
   \<Rightarrow> error + string list" where
  "find_img_prefix_loop s3 zarr_open brain_id [] valid_prefixes = Inr valid_prefixes"
| "find_img_prefix_loop s3 zarr_open brain_id (pfx # rest) valid_prefixes =
     bind (find_img_prefix_body s3 zarr_open brain_id pfx)
       (\<lambda>appended.
          find_img_prefix_loop s3 zarr_open brain_id rest (valid_prefixes @ appended))"

definition find_img_prefix ::
  "s3_client \<Rightarrow> (string \<Rightarrow> error + int list) \<Rightarrow> string \<Rightarrow> (error + string list) option" where
  "find_img_prefix s3 zarr_open brain_id =
     (case list_bucket_prefixes s3 ''aind-open-data'' (Some (''exaspim_'' @ brain_id)) of
        None \<Rightarrow> None
      | Some pfxs \<Rightarrow> Some (find_img_prefix_loop s3 zarr_open brain_id pfxs []))"

text \<open>
  \<open>get_img_prefix\<close> returns the prefix and leaves the file system as it has written it.
  The cache file holds a flat object from identifiers to paths. The second half of the
  function (\<open># Find prefix path\<close>) takes the cache that was read, if any. A cache path
  that is \<open>None\<close> or empty is not used (\<open>if prefix_lookup_path:\<close>).
\<close>

definition find_prefix_path ::
  "(string \<rightharpoonup> string) json \<Rightarrow> s3_client \<Rightarrow> (string \<Rightarrow> error + int list) \<Rightarrow> filesystem
   \<Rightarrow> string \<Rightarrow> (string \<times> (string \<rightharpoonup> string)) option
   \<Rightarrow> (error + string \<times> filesystem) option" where
  "find_prefix_path js s3 zarr_open fs brain_id cache =
     (case find_img_prefix s3 zarr_open brain_id of
        None \<Rightarrow> None
      | Some (Inl e) \<Rightarrow> Some (Inl e)
      | Some (Inr result) \<Rightarrow>
          (case result of
             [r] \<Rightarrow>
               (let pfx = r @ ''/''
                in Some (case cache of
                           None \<Rightarrow> Inr (pfx, fs)
                         | Some (prefix_lookup_path, prefix_lookup) \<Rightarrow>
                             bind (write_json js fs prefix_lookup_path
                                     (prefix_lookup(brain_id \<mapsto> pfx)))
                               (\<lambda>fs'. Inr (pfx, fs'))))
           | _ \<Rightarrow> Some (Inl (Image_Prefixes_Found result))))"

definition get_img_prefix ::
  "(string \<rightharpoonup> string) json \<Rightarrow> s3_client \<Rightarrow> (string \<Rightarrow> error + int list) \<Rightarrow> filesystem
   \<Rightarrow> string \<Rightarrow> string option \<Rightarrow> (error + string \<times> filesystem) option" where
  "get_img_prefix js s3 zarr_open fs brain_id prefix_lookup_path =
     (case prefix_lookup_path of
        None \<Rightarrow> find_prefix_path js s3 zarr_open fs brain_id None
      | Some path \<Rightarrow>
          if path = [] then find_prefix_path js s3 zarr_open fs brain_id None
          else (case read_json js fs path of
                  Inl e \<Rightarrow> Some (Inl e)
                | Inr prefix_lookup \<Rightarrow>
                    (case prefix_lookup brain_id of
                       Some pfx \<Rightarrow> Some (Inr (pfx, fs))
                     | None \<Rightarrow>
                         find_prefix_path js s3 zarr_open fs brain_id
                           (Some (path, prefix_lookup)))))"


section \<open>\<open>data_util\<close>\<close>

definition find_most_recent_dirname :: "string list \<Rightarrow> error + string" where
  "find_most_recent_dirname results_prefix_list =
     bind (map_err
             (\<lambda>pfx. bind (getitem (str_split pfx ''/'') (- 2))
                (\<lambda>dirname. Inr (str_replace dirname ''results_'' '''')))
             results_prefix_list)
       (\<lambda>dates. bind (getitem (sort dates) (- 1)) (\<lambda>d. Inr (''results_'' @ d)))"


section \<open>\<open>smartsheet_util\<close>\<close>

text \<open>
  The sheet snapshot the client holds. \<open>column_name_to_id\<close> is the dictionary built from
  the columns, kept as an association list in insertion order (its keys are the column
  titles of \<open>to_dataframe\<close>). The fields \<open>id\<close> of a row and \<open>value\<close> of a cell are
  written \<open>row_id\<close> and \<open>raw_value\<close>.
\<close>

record cell =
  column_id :: int
  display_value :: "string option"
  raw_value :: pyvalue

record row =
  row_id :: int
  parent_id :: "int option"
  cells :: "cell list"

record sheet =
  rows :: "row list"

record client =
  sheet :: sheet
  column_name_to_id :: "(string \<times> int) list"

text \<open>\<open>a or b\<close>\<close>

definition py_or :: "pyvalue \<Rightarrow> pyvalue \<Rightarrow> pyvalue" where
  "py_or a b = (if truthy a then a else b)"

definition get_value :: "client \<Rightarrow> int \<Rightarrow> string \<Rightarrow> error + pyvalue" where
  "get_value self row_idx column_name =
     bind (getitem (rows (sheet self)) row_idx)
       (\<lambda>row. case map_of (column_name_to_id self) column_name of
                 None \<Rightarrow> Inl KeyError
               | Some col_id \<Rightarrow>
                   (case find (\<lambda>c. column_id c = col_id) (cells row) of
                      None \<Rightarrow> Inl AttributeError
                    | Some cell \<Rightarrow>
                        Inr (py_or (of_optional (display_value cell)) (raw_value cell))))"

text \<open>
  \<open>pd.DataFrame(data, columns=columns)\<close> on a list of rows. With no row the frame is
  empty and has the given columns. Otherwise the rows are filled up to the width of the
  widest row with the missing value, and the call raises \<open>ValueError\<close> unless that width
  is the number of columns. In the frame a \<open>None\<close> is the missing value (pandas keeps it
  as \<open>None\<close> or as \<open>NaN\<close>, by the type it infers for the column), and a number is that
  number.
\<close>

datatype frame_value = Missing | FBool bool | FNum real | FStr string

fun frame_of :: "pyvalue \<Rightarrow> frame_value" where
  "frame_of PNone = Missing"
| "frame_of (PBool b) = FBool b"
| "frame_of (PNum x) = FNum x"
| "frame_of (PStr s) = FStr s"

record dataframe =
  frame_columns :: "string list"
  frame_values :: "frame_value list list"

definition DataFrame :: "pyvalue list list \<Rightarrow> string list \<Rightarrow> error + dataframe" where
  "DataFrame data columns =
     (if data = [] then Inr \<lparr>frame_columns = columns, frame_values = []\<rparr>
      else if fold max (map length data) 0 = length columns
      then Inr \<lparr>frame_columns = columns,
                frame_values =
                  map (\<lambda>r. map frame_of r @ replicate (length columns - length r) Missing)
                    data\<rparr>
      else Inl ValueError)"

definition to_dataframe :: "client \<Rightarrow> error + dataframe" where
  "to_dataframe self =
     DataFrame
       (map (\<lambda>row.
               map (\<lambda>cell. if truthy (of_optional (display_value cell)) then raw_value cell
                            else of_optional (display_value cell))
                 (cells row))
          (rows (sheet self)))
       (map fst (column_name_to_id self))"

text \<open>
  \<open>read_xyz\<close> is \<open>ast.literal_eval\<close>, a parameter: it parses a cell value into a
  coordinate of type \<open>'c\<close> or raises.
\<close>

definition read_xyz :: "(pyvalue \<Rightarrow> error + 'c) \<Rightarrow> pyvalue \<Rightarrow> error + 'c" where
  "read_xyz literal_eval xyz_str = literal_eval xyz_str"

record 'c sites =
  segment_id :: "pyvalue list"
  groundtruth_id :: "pyvalue list"
  xyz :: "'c list"

text \<open>The three \<open>append\<close>s under \<open>if is_merge and is_reviewed\<close>.\<close>

definition append_site ::
  "(pyvalue \<Rightarrow> error + 'c) \<Rightarrow> client \<Rightarrow> int \<Rightarrow> 'c sites \<Rightarrow> error + 'c sites" where
  "append_site literal_eval smartsheet_client i s =
     bind (get_value smartsheet_client i ''Segmentation ID'')
       (\<lambda>seg. bind (get_value smartsheet_client i ''Ground Truth ID'')
          (\<lambda>gt. bind (get_value smartsheet_client i ''World Coordinates'')
             (\<lambda>wc. bind (read_xyz literal_eval wc)
                (\<lambda>p. Inr \<lparr>segment_id = segment_id s @ [seg],
                          groundtruth_id = groundtruth_id s @ [gt],
                          xyz = xyz s @ [p]\<rparr>))))"

text \<open>
  The body of the \<open>for\<close> loop of \<open>find_confirmed_merge_sites\<close> at row \<open>i\<close>: the new
  \<open>sites\<close> and the new \<open>n_reviewed_sites\<close>.
\<close>

definition find_confirmed_body ::
  "(pyvalue \<Rightarrow> error + 'c) \<Rightarrow> client \<Rightarrow> int \<Rightarrow> 'c sites \<Rightarrow> nat \<Rightarrow> error + 'c sites \<times> nat"
where
  "find_confirmed_body literal_eval smartsheet_client i s n_reviewed_sites =
     bind (get_value smartsheet_client i ''Merge Confirmation'')
       (\<lambda>is_merge. bind (get_value smartsheet_client i ''Reviewed?'')
          (\<lambda>is_reviewed.
             bind (if truthy is_merge \<and> truthy is_reviewed
                   then append_site literal_eval smartsheet_client i s
                   else Inr s)
               (\<lambda>s'. Inr (s', if truthy is_reviewed then n_reviewed_sites + 1
                              else n_reviewed_sites))))"

fun find_confirmed_loop ::
  "(pyvalue \<Rightarrow> error + 'c) \<Rightarrow> client \<Rightarrow> int list \<Rightarrow> 'c sites \<Rightarrow> nat \<Rightarrow> error + 'c sites \<times> nat"
where
  "find_confirmed_loop literal_eval smartsheet_client [] s n_reviewed_sites =
     Inr (s, n_reviewed_sites)"
| "find_confirmed_loop literal_eval smartsheet_client (i # idxs) s n_reviewed_sites =
     bind (find_confirmed_body literal_eval smartsheet_client i s n_reviewed_sites)
       (\<lambda>(s', n'). find_confirmed_loop literal_eval smartsheet_client idxs s' n')"

definition find_confirmed_merge_sites ::
  "(pyvalue \<Rightarrow> error + 'c) \<Rightarrow> client \<Rightarrow> int list \<Rightarrow> error + 'c sites \<times> nat" where
  "find_confirmed_merge_sites literal_eval smartsheet_client idxs =
     find_confirmed_loop literal_eval smartsheet_client idxs
       \<lparr>segment_id = [], groundtruth_id = [], xyz = []\<rparr> 0"


text \<open>
  What the loop of \<open>find_confirmed_merge_sites\<close> reads at row \<open>i\<close>, as functions of the
  row: whether the "Merge Confirmation" cell and the "Reviewed?" cell are truthy (false
  where reading the cell raises; the loop raises there too), and the record the three
  \<open>append\<close>s add.
\<close>

definition is_merge :: "client \<Rightarrow> int \<Rightarrow> bool" where
  "is_merge smartsheet_client i =
     (case get_value smartsheet_client i ''Merge Confirmation'' of
        Inl e \<Rightarrow> False
      | Inr v \<Rightarrow> truthy v)"

definition is_reviewed :: "client \<Rightarrow> int \<Rightarrow> bool" where
  "is_reviewed smartsheet_client i =
     (case get_value smartsheet_client i ''Reviewed?'' of
        Inl e \<Rightarrow> False
      | Inr v \<Rightarrow> truthy v)"

definition site_record ::
  "(pyvalue \<Rightarrow> error + 'c) \<Rightarrow> client \<Rightarrow> int \<Rightarrow> error + pyvalue \<times> pyvalue \<times> 'c" where
  "site_record literal_eval smartsheet_client i =
     bind (get_value smartsheet_client i ''Segmentation ID'')
       (\<lambda>seg. bind (get_value smartsheet_client i ''Ground Truth ID'')
          (\<lambda>gt. bind (get_value smartsheet_client i ''World Coordinates'')
             (\<lambda>wc. bind (literal_eval wc) (\<lambda>p. Inr (seg, gt, p)))))"


section \<open>Example inputs\<close>

text \<open>
  A sheet with one sample row and three review rows under it, every row with a cell in
  each of the six columns: row 1 is reviewed and confirmed, row 2 is reviewed and not
  confirmed, row 3 is not reviewed. The check-box cells and the empty cells have no
  display value.
\<close>

definition example_client :: client where
  "example_client =
     \<lparr>sheet = \<lparr>rows =
        [\<lparr>row_id = 10, parent_id = None, cells =
            [\<lparr>column_id = 1, display_value = Some ''653159_seg'', raw_value = PStr ''653159_seg''\<rparr>,
             \<lparr>column_id = 2, display_value = None, raw_value = PNone\<rparr>,
             \<lparr>column_id = 3, display_value = None, raw_value = PNone\<rparr>,
             \<lparr>column_id = 4, display_value = None, raw_value = PNone\<rparr>,
             \<lparr>column_id = 5, display_value = None, raw_value = PNone\<rparr>,
             \<lparr>column_id = 6, display_value = None, raw_value = PNone\<rparr>]\<rparr>,
         \<lparr>row_id = 11, parent_id = Some 10, cells =
            [\<lparr>column_id = 1, display_value = None, raw_value = PNone\<rparr>,
             \<lparr>column_id = 2, display_value = None, raw_value = PBool True\<rparr>,
             \<lparr>column_id = 3, display_value = None, raw_value = PBool True\<rparr>,
             \<lparr>column_id = 4, display_value = Some ''7'', raw_value = PNum 7\<rparr>,
             \<lparr>column_id = 5, display_value = Some ''N001'', raw_value = PStr ''N001''\<rparr>,
             \<lparr>column_id = 6, display_value = Some ''(1, 2, 3)'', raw_value = PStr ''(1, 2, 3)''\<rparr>]\<rparr>,
         \<lparr>row_id = 12, parent_id = Some 10, cells =
            [\<lparr>column_id = 1, display_value = None, raw_value = PNone\<rparr>,
             \<lparr>column_id = 2, display_value = None, raw_value = PBool False\<rparr>,
             \<lparr>column_id = 3, display_value = None, raw_value = PBool True\<rparr>,
             \<lparr>column_id = 4, display_value = Some ''8'', raw_value = PNum 8\<rparr>,
             \<lparr>column_id = 5, display_value = Some ''N002'', raw_value = PStr ''N002''\<rparr>,
             \<lparr>column_id = 6, display_value = Some ''(4, 5, 6)'', raw_value = PStr ''(4, 5, 6)''\<rparr>]\<rparr>,
         \<lparr>row_id = 13, parent_id = Some 10, cells =
            [\<lparr>column_id = 1, display_value = None, raw_value = PNone\<rparr>,
             \<lparr>column_id = 2, display_value = None, raw_value = PNone\<rparr>,
             \<lparr>column_id = 3, display_value = None, raw_value = PNone\<rparr>,
             \<lparr>column_id = 4, display_value = Some ''9'', raw_value = PNum 9\<rparr>,
             \<lparr>column_id = 5, display_value = Some ''N003'', raw_value = PStr ''N003''\<rparr>,
             \<lparr>column_id = 6, display_value = Some ''(7, 8, 9)'', raw_value = PStr ''(7, 8, 9)''\<rparr>]\<rparr>]\<rparr>,
      column_name_to_id =
        [(''Sample'', 1), (''Merge Confirmation'', 2), (''Reviewed?'', 3),
         (''Segmentation ID'', 4), (''Ground Truth ID'', 5), (''World Coordinates'', 6)]\<rparr>"

definition example_literal_eval :: "pyvalue \<Rightarrow> error + int \<times> int \<times> int" where
  "example_literal_eval v =
     (if v = PStr ''(1, 2, 3)'' then Inr (1, 2, 3)
      else if v = PStr ''(4, 5, 6)'' then Inr (4, 5, 6)
      else Inl ValueError)"

text \<open>
  A bucket with three top-level directories, each holding \<open>fused.zarr\<close> with the levels
  0 to 7, and an array store in which every level 0 has the shape
  \<open>(1, 1, 30000, 20000, 40000)\<close>.
\<close>

definition example_s3 :: s3_client where
  "example_s3 =
     \<lparr>list_objects_v2 = (\<lambda>req.
        case Prefix req of
          None \<Rightarrow>
            \<lparr>CommonPrefixes =
               Some [''exaSPIM_653159_a/'', ''exaSPIM_700000_a/'', ''exaSPIM_700000_b/''],
             Contents = None, IsTruncated = False, NextContinuationToken = None\<rparr>
        | Some p \<Rightarrow>
            \<lparr>CommonPrefixes = Some (map (\<lambda>l. p @ l @ ''/'') levels),
             Contents = None, IsTruncated = False, NextContinuationToken = None\<rparr>),
      paginate = (\<lambda>req.
        case Prefix req of
          None \<Rightarrow> []
        | Some p \<Rightarrow>
            [\<lparr>CommonPrefixes = Some [p @ ''fused.zarr/''],
              Contents = None, IsTruncated = False, NextContinuationToken = None\<rparr>])\<rparr>"

definition example_zarr_open :: "string \<Rightarrow> error + int list" where
  "example_zarr_open root_path =
     (if suffix ''/fused.zarr/0'' root_path
      then Inr [1, 1, 30000, 20000, 40000]
      else Inl (External ''PathNotFoundError''))"

text \<open>
  A bucket in which the directory \<open>exaSPIM_653159_a/\<close> holds one file and no
  \<open>fused.zarr\<close>: the pages of every listing hold that file, and no directory.
\<close>

definition s3_without_zarr :: s3_client where
  "s3_without_zarr =
     \<lparr>list_objects_v2 = (\<lambda>req.
        \<lparr>CommonPrefixes = None, Contents = None, IsTruncated = False,
         NextContinuationToken = None\<rparr>),
      paginate = (\<lambda>req.
        [\<lparr>CommonPrefixes = None, Contents = Some [''exaSPIM_653159_a/metadata.json''],
          IsTruncated = False, NextContinuationToken = None\<rparr>])\<rparr>"

text \<open>
  A bucket in the layout with a \<open>fusion\<close> directory, holding
  \<open>exaSPIM_653159_a/fusion/fused.zarr/\<close> with the levels 0 to 6 and no level 7. A
  listing with delimiter \<open>/\<close> answers the directories that extend the prefix up to the
  next \<open>/\<close>; for the prefix \<open>exaSPIM_653159_a/fusion\<close>, which does not end in \<open>/\<close>,
  that is the directory \<open>exaSPIM_653159_a/fusion/\<close> itself.
\<close>

definition fusion_directories :: "string option \<Rightarrow> string list" where
  "fusion_directories p =
     (if p = None then [''exaSPIM_653159_a/'']
      else if p = Some ''exaSPIM_653159_a/'' \<or> p = Some ''exaSPIM_653159_a/fusion''
      then [''exaSPIM_653159_a/fusion/'']
      else if p = Some ''exaSPIM_653159_a/fusion/''
      then [''exaSPIM_653159_a/fusion/fused.zarr/'']
      else if p = Some ''exaSPIM_653159_a/fusion/fused.zarr/''
      then map (\<lambda>l. ''exaSPIM_653159_a/fusion/fused.zarr/'' @ l @ ''/'') (butlast levels)
      else [])"

definition s3_fusion_layout :: s3_client where
  "s3_fusion_layout =
     \<lparr>list_objects_v2 = (\<lambda>req.
        \<lparr>CommonPrefixes = Some (fusion_directories (Prefix req)), Contents = None,
         IsTruncated = False, NextContinuationToken = None\<rparr>),
      paginate = (\<lambda>req.
        [\<lparr>CommonPrefixes = Some (fusion_directories (Prefix req)), Contents = None,
          IsTruncated = False, NextContinuationToken = None\<rparr>])\<rparr>"

text \<open>
  A service that answers every listing in two pages: directory \<open>a/\<close> on the first
  page, which is truncated and names the token \<open>page2\<close>, and directory \<open>b/\<close> on the
  page of that token.
\<close>

definition s3_two_pages :: s3_client where
  "s3_two_pages =
     \<lparr>list_objects_v2 = (\<lambda>req.
        if ContinuationToken req = None
        then \<lparr>CommonPrefixes = Some [get_or_empty (Prefix req) @ ''a/''], Contents = None,
              IsTruncated = True, NextContinuationToken = Some ''page2''\<rparr>
        else \<lparr>CommonPrefixes = Some [get_or_empty (Prefix req) @ ''b/''], Contents = None,
              IsTruncated = False, NextContinuationToken = None\<rparr>),
      paginate = (\<lambda>req. [])\<rparr>"

text \<open>
  \<open>get_img_prefix\<close> takes the cache as a map and the module \<open>json\<close> as a parameter.
  This one reads and writes the caches that hold at most the identifier \<open>653159\<close>,
  with a path that needs no escaping: the empty object, or the object with that one key.
\<close>

definition example_json :: "(string \<rightharpoonup> string) json" where
  \<open>example_json =
     \<lparr>json_dump = (\<lambda>contents.
        case contents ''653159'' of
          None \<Rightarrow> ''{}''
        | Some v \<Rightarrow> ''{"653159": "'' @ v @ ''"}''),
      json_load = (\<lambda>text.
        if text = ''{}'' then Inr Map.empty
        else if prefix ''{"653159": "'' text \<and> suffix ''"}'' text
        then Inr [''653159'' \<mapsto> rev (drop 2 (rev (drop 12 text)))]
        else Inl JSONDecodeError)\<rparr>\<close>


text \<open>
  Two file systems: one with no file, in which \<open>lookup.json\<close> can be created and nothing
  else, and one in which \<open>lookup.json\<close> holds the empty object.
\<close>

definition no_files :: filesystem where
  "no_files = \<lparr>files = Map.empty, creatable = (\<lambda>path. path = ''lookup.json'')\<rparr>"

definition lookup_file :: filesystem where
  "lookup_file = \<lparr>files = [''lookup.json'' \<mapsto> ''{}''], creatable = (\<lambda>path. False)\<rparr>"


section \<open>Properties of \<open>data_util\<close>\<close>

text \<open>\<open>split\<close> never returns the empty list, so \<open>[-1]\<close> on its result cannot raise.\<close>

lemma split_from_nonempty: "split_from sep cur s \<noteq> []"
  by (induction sep cur s rule: split_from.induct) auto

lemma split_from_last_word:
  "CHR ''/'' \<notin> set w \<Longrightarrow> split_from ''/'' cur (w @ ''/'') = [rev cur @ w, []]"
  by (induction w arbitrary: cur) auto

lemma split_from_tail:
  "CHR ''/'' \<notin> set w \<Longrightarrow> \<exists>L. split_from ''/'' cur (p @ ''/'' @ w @ ''/'') = L @ [w, []]"
proof (induction p arbitrary: cur)
  case Nil
  then show ?case using split_from_last_word [of w "[]"] by simp
next
  case (Cons c p)
  show ?case
  proof (cases "c = CHR ''/''")
    case True
    from Cons.IH [OF Cons.prems, of "[]"] obtain L
      where "split_from ''/'' [] (p @ ''/'' @ w @ ''/'') = L @ [w, []]" by blast
    then have "split_from ''/'' cur ((c # p) @ ''/'' @ w @ ''/'') = (rev cur # L) @ [w, []]"
      using True by simp
    then show ?thesis by blast
  next
    case False
    from Cons.IH [OF Cons.prems, of "c # cur"] obtain L
      where "split_from ''/'' (c # cur) (p @ ''/'' @ w @ ''/'') = L @ [w, []]" by blast
    then have "split_from ''/'' cur ((c # p) @ ''/'' @ w @ ''/'') = L @ [w, []]"
      using False by simp
    then show ?thesis by blast
  qed
qed

lemma getitem_second_last: "getitem (L @ [a, b]) (- 2) = Inr a"
  by (simp add: getitem_def Let_def nth_append)

lemma dirname_of_prefix:
  assumes "CHR ''/'' \<notin> set w" and "p = [] \<or> suffix ''/'' p"
  shows "getitem (str_split (p @ w @ ''/'') ''/'') (- 2) = Inr w"
proof (cases "p = []")
  case True
  then show ?thesis
    using split_from_last_word [OF assms(1), of "[]"] getitem_second_last [of "[]" w "[]"]
    by (simp add: str_split_def)
next
  case False
  with assms(2) obtain q where p: "p = q @ ''/''" by (auto simp: suffix_def)
  from split_from_tail [OF assms(1), of "[]" q] obtain L
    where "split_from ''/'' [] (q @ ''/'' @ w @ ''/'') = L @ [w, []]" by blast
  then show ?thesis
    using getitem_second_last [of L w "[]"] by (simp add: str_split_def p)
qed

lemma replace_from_no_r:
  "CHR ''r'' \<notin> set d \<Longrightarrow> replace_from ''results_'' new d = d"
  by (induction d) auto

lemma str_replace_results:
  "CHR ''r'' \<notin> set d \<Longrightarrow> str_replace (''results_'' @ d) ''results_'' [] = d"
  by (simp add: str_replace_def replace_from_no_r)

lemma map_err_all_Inr:
  "(\<And>x. x \<in> set xs \<Longrightarrow> f x = Inr (g x)) \<Longrightarrow> map_err f xs = Inr (map g xs)"
  by (induction xs) (auto simp: bind_def)

lemma sorted_last_Max:
  fixes xs :: "('a::linorder) list"
  shows "sorted xs \<Longrightarrow> xs \<noteq> [] \<Longrightarrow> last xs = Max (set xs)"
proof (induction xs)
  case Nil
  then show ?case by simp
next
  case (Cons x ys)
  show ?case
  proof (cases "ys = []")
    case True
    then show ?thesis by simp
  next
    case False
    with Cons have l: "last ys = Max (set ys)" by simp
    have "last ys \<in> set ys" using False by simp
    then have "x \<le> last ys" using Cons.prems(1) by auto
    then show ?thesis using False l by (simp add: max_def)
  qed
qed

lemma getitem_last_sorted:
  fixes xs :: "('a::linorder) list"
  assumes "xs \<noteq> []"
  shows "getitem (sort xs) (- 1) = Inr (Max (set xs))"
proof -
  have ne: "sort xs \<noteq> []" using assms by (metis length_0_conv length_sort)
  have "last (sort xs) = Max (set (sort xs))"
    using sorted_sort [of xs] ne by (rule sorted_last_Max)
  then have "last (sort xs) = Max (set xs)" by simp
  moreover have "getitem (sort xs) (- 1) = Inr (last (sort xs))"
    using ne by (cases "sort xs" rule: rev_cases) (simp_all add: getitem_def Let_def nth_append)
  ultimately show ?thesis by simp
qed

text \<open>
  C5. For a non-empty list of prefixes, each of the form \<open>p/results_YYYYMMDD/\<close> (the
  part \<open>p/\<close> before the last directory may be empty, the date is eight digits),
  \<open>find_most_recent_dirname\<close> returns \<open>results_\<close> followed by the date that is
  greatest in the lexicographic order of strings.
\<close>

theorem find_most_recent_dirname_max:
  assumes "pds \<noteq> []"
    and "\<forall>(p, d) \<in> set pds.
           (p = [] \<or> suffix ''/'' p) \<and> length d = 8 \<and> set d \<subseteq> set ''0123456789''"
  shows "find_most_recent_dirname (map (\<lambda>(p, d). p @ ''results_'' @ d @ ''/'') pds) =
           Inr (''results_'' @ Max (set (map snd pds)))"
proof -
  have step: "bind (getitem (str_split (p @ ''results_'' @ d @ ''/'') ''/'') (- 2))
                (\<lambda>dirname. Inr (str_replace dirname ''results_'' [])) = Inr d"
    if "(p, d) \<in> set pds" for p d
  proof -
    from assms(2) that
    have p: "p = [] \<or> suffix ''/'' p" and d: "set d \<subseteq> set ''0123456789''" by auto
    from d have s: "CHR ''/'' \<notin> set (''results_'' @ d)" and r: "CHR ''r'' \<notin> set d" by auto
    from dirname_of_prefix [OF s p]
    have "getitem (str_split (p @ ''results_'' @ d @ ''/'') ''/'') (- 2) = Inr (''results_'' @ d)"
      by simp
    then show ?thesis
      using str_replace_results [OF r] by (simp add: bind_def)
  qed
  have "map_err (\<lambda>pfx. bind (getitem (str_split pfx ''/'') (- 2))
                  (\<lambda>dirname. Inr (str_replace dirname ''results_'' [])))
          (map (\<lambda>(p, d). p @ ''results_'' @ d @ ''/'') pds) = Inr (map snd pds)"
    using step by (induction pds) (auto simp: bind_def)
  moreover have "getitem (sort (map snd pds)) (- 1) = Inr (Max (set (map snd pds)))"
    using assms(1) by (intro getitem_last_sorted) simp
  ultimately show ?thesis
    by (simp add: find_most_recent_dirname_def bind_def)
qed

theorem find_most_recent_dirname_max_witness:
  "find_most_recent_dirname [''a/results_20230101/'', ''b/results_20240615/''] =
     Inr ''results_20240615''"
  using find_most_recent_dirname_max
          [of "[(''a/'', ''20230101''), (''b/'', ''20240615'')]"]
  by (simp add: suffix_def)


section \<open>Properties of \<open>smartsheet_util\<close>\<close>

text \<open>
  C8. At a row index of the sheet and a column name of the sheet, where the row has a
  cell in that column, \<open>get_value\<close> returns the display value of the cell when it is a
  non-empty string, and the raw value of the cell when the display value is absent or
  empty.
\<close>

theorem get_value_prefers_display:
  assumes "getitem (rows (sheet self)) row_idx = Inr row"
    and "map_of (column_name_to_id self) column_name = Some col_id"
    and "find (\<lambda>c. column_id c = col_id) (cells row) = Some cell"
  shows "get_value self row_idx column_name =
           Inr (case display_value cell of
                  None \<Rightarrow> raw_value cell
                | Some d \<Rightarrow> if d = [] then raw_value cell else PStr d)"
  using assms by (simp add: get_value_def bind_def py_or_def split: option.splits)

theorem get_value_prefers_display_witness:
  "get_value example_client 1 ''Segmentation ID'' = Inr (PStr ''7'')
   \<and> get_value example_client 1 ''Reviewed?'' = Inr (PBool True)"
proof -
  let ?row = "rows (sheet example_client) ! 1"
  have r: "getitem (rows (sheet example_client)) 1 = Inr ?row"
    by (simp add: getitem_def example_client_def)
  have a: "map_of (column_name_to_id example_client) ''Segmentation ID'' = Some 4"
    by (simp add: example_client_def)
  have b: "map_of (column_name_to_id example_client) ''Reviewed?'' = Some 3"
    by (simp add: example_client_def)
  have fa: "find (\<lambda>c. column_id c = 4) (cells ?row)
              = Some \<lparr>column_id = 4, display_value = Some ''7'', raw_value = PNum 7\<rparr>"
    by (simp add: example_client_def)
  have fb: "find (\<lambda>c. column_id c = 3) (cells ?row)
              = Some \<lparr>column_id = 3, display_value = None, raw_value = PBool True\<rparr>"
    by (simp add: example_client_def)
  show ?thesis
    using get_value_prefers_display [OF r a fa] get_value_prefers_display [OF r b fb]
    by simp
qed

lemma fold_max_all_equal:
  "\<forall>x\<in>set xs. x = n \<Longrightarrow> fold max xs (m::nat) = (if xs = [] then m else max m n)"
  by (induction xs arbitrary: m) auto

text \<open>
  \<open>to_dataframe\<close> returns a frame at every sheet whose rows all have one cell for each
  column, and raises \<open>ValueError\<close> at a sheet whose widest row has another number of
  cells than there are columns.
\<close>

lemma to_dataframe_returns:
  assumes "\<forall>r\<in>set (rows (sheet self)). length (cells r) = length (column_name_to_id self)"
  shows "\<exists>df. to_dataframe self = Inr df"
proof (cases "rows (sheet self) = []")
  case True
  then show ?thesis by (simp add: to_dataframe_def DataFrame_def)
next
  case False
  have "fold max (map (\<lambda>r. length (cells r)) (rows (sheet self))) 0
          = length (column_name_to_id self)"
    using assms False
    by (subst fold_max_all_equal [where n = "length (column_name_to_id self)"]) auto
  then show ?thesis
    using False by (simp add: to_dataframe_def DataFrame_def comp_def)
qed

lemma to_dataframe_raises:
  assumes "rows (sheet self) \<noteq> []"
    and "fold max (map (\<lambda>r. length (cells r)) (rows (sheet self))) 0
           \<noteq> length (column_name_to_id self)"
  shows "to_dataframe self = Inl ValueError"
  using assms by (simp add: to_dataframe_def DataFrame_def comp_def)

lemma example_frame:
  "to_dataframe example_client =
     Inr \<lparr>frame_columns =
            [''Sample'', ''Merge Confirmation'', ''Reviewed?'', ''Segmentation ID'',
             ''Ground Truth ID'', ''World Coordinates''],
          frame_values =
            [[FStr ''653159_seg'', Missing, Missing, Missing, Missing, Missing],
             [Missing, Missing, Missing, FNum 7, FStr ''N001'', FStr ''(1, 2, 3)''],
             [Missing, Missing, Missing, FNum 8, FStr ''N002'', FStr ''(4, 5, 6)''],
             [Missing, Missing, Missing, FNum 9, FStr ''N003'', FStr ''(7, 8, 9)'']]\<rparr>"
  by (simp add: to_dataframe_def DataFrame_def example_client_def)

text \<open>
  C10. When \<open>to_dataframe\<close> returns the frame, its columns are the column titles, it
  has one row for each row of the sheet, and every cell of the sheet stands at its place
  in the frame as follows: a cell with a non-empty display value as its raw value, a
  cell with an empty display value as that empty string, a cell with no display value as
  the missing value. This is the opposite preference to \<open>get_value\<close>.
\<close>

theorem to_dataframe_emits:
  assumes "to_dataframe self = Inr df"
    and "i < length (rows (sheet self))" and "j < length (cells (rows (sheet self) ! i))"
  shows "frame_columns df = map fst (column_name_to_id self)
     \<and> length (frame_values df) = length (rows (sheet self))
     \<and> frame_values df ! i ! j =
           (case display_value (cells (rows (sheet self) ! i) ! j) of
              None \<Rightarrow> Missing
            | Some d \<Rightarrow>
                if d = [] then FStr [] else frame_of (raw_value (cells (rows (sheet self) ! i) ! j)))"
proof -
  from assms(2) have ne: "rows (sheet self) \<noteq> []" by auto
  from assms(1) ne have df:
    "df = \<lparr>frame_columns = map fst (column_name_to_id self),
            frame_values =
              map (\<lambda>r. map frame_of r
                         @ replicate (length (map fst (column_name_to_id self)) - length r) Missing)
                (map (\<lambda>row.
                        map (\<lambda>cell. if truthy (of_optional (display_value cell))
                                     then raw_value cell
                                     else of_optional (display_value cell))
                          (cells row))
                   (rows (sheet self)))\<rparr>"
    by (auto simp: to_dataframe_def DataFrame_def split: if_splits)
  show ?thesis
    using assms(2,3) by (simp add: df nth_append split: option.splits)
qed

theorem to_dataframe_emits_witness:
  "(\<exists>df. to_dataframe example_client = Inr df
          \<and> frame_columns df =
              [''Sample'', ''Merge Confirmation'', ''Reviewed?'', ''Segmentation ID'',
               ''Ground Truth ID'', ''World Coordinates'']
          \<and> length (frame_values df) = 4
          \<and> frame_values df ! 1 ! 3 = FNum 7
          \<and> frame_values df ! 1 ! 1 = Missing)
   \<and> get_value example_client 1 ''Segmentation ID'' = Inr (PStr ''7'')
   \<and> get_value example_client 1 ''Merge Confirmation'' = Inr (PBool True)"
proof -
  obtain df where df: "to_dataframe example_client = Inr df"
    using example_frame by simp
  have i: "1 < length (rows (sheet example_client))"
    by (simp add: example_client_def)
  have j3: "3 < length (cells (rows (sheet example_client) ! 1))"
    and j1: "1 < length (cells (rows (sheet example_client) ! 1))"
    by (simp_all add: example_client_def)
  have "frame_columns df =
          [''Sample'', ''Merge Confirmation'', ''Reviewed?'', ''Segmentation ID'',
           ''Ground Truth ID'', ''World Coordinates'']
        \<and> length (frame_values df) = 4 \<and> frame_values df ! 1 ! 3 = FNum 7"
    using to_dataframe_emits [OF df i j3] by (simp add: example_client_def)
  moreover have "frame_values df ! 1 ! 1 = Missing"
    using to_dataframe_emits [OF df i j1] by (simp add: example_client_def)
  moreover have "get_value example_client 1 ''Segmentation ID'' = Inr (PStr ''7'')"
    by code_simp
  moreover have "get_value example_client 1 ''Merge Confirmation'' = Inr (PBool True)"
    by code_simp
  ultimately show ?thesis using df by simp
qed

lemma append_site_eq:
  "append_site le c i s =
     bind (site_record le c i)
       (\<lambda>(seg, gt, p). Inr \<lparr>segment_id = segment_id s @ [seg],
                             groundtruth_id = groundtruth_id s @ [gt], xyz = xyz s @ [p]\<rparr>)"
  by (simp add: append_site_def site_record_def read_xyz_def bind_def split: sum.splits)

lemma find_confirmed_body_cases:
  assumes "find_confirmed_body le c i s n = Inr (s', n')"
  shows "n' = (if is_reviewed c i then n + 1 else n)"
    and "\<not> (is_merge c i \<and> is_reviewed c i) \<Longrightarrow> s' = s"
    and "is_merge c i \<and> is_reviewed c i \<Longrightarrow>
           \<exists>seg gt p. site_record le c i = Inr (seg, gt, p)
             \<and> s' = \<lparr>segment_id = segment_id s @ [seg],
                      groundtruth_id = groundtruth_id s @ [gt], xyz = xyz s @ [p]\<rparr>"
  using assms
  by (auto simp: find_confirmed_body_def append_site_eq is_reviewed_def is_merge_def bind_def
           split: sum.splits if_splits)

lemma find_confirmed_loop_spec:
  "find_confirmed_loop le c idxs s n = Inr (s', n') \<Longrightarrow>
     n' = n + length (filter (is_reviewed c) idxs)
     \<and> (\<exists>recs. map_err (site_record le c)
                  (filter (\<lambda>i. is_merge c i \<and> is_reviewed c i) idxs) = Inr recs
          \<and> segment_id s' = segment_id s @ map fst recs
          \<and> groundtruth_id s' = groundtruth_id s @ map (fst \<circ> snd) recs
          \<and> xyz s' = xyz s @ map (snd \<circ> snd) recs)"
proof (induction idxs arbitrary: s n)
  case Nil
  then show ?case by simp
next
  case (Cons i idxs)
  from Cons.prems obtain s1 n1
    where body: "find_confirmed_body le c i s n = Inr (s1, n1)"
      and rest: "find_confirmed_loop le c idxs s1 n1 = Inr (s', n')"
    by (auto simp: bind_def split: sum.splits)
  note IH = Cons.IH [OF rest]
  note b = find_confirmed_body_cases [OF body]
  show ?case
  proof (cases "is_merge c i \<and> is_reviewed c i")
    case True
    from b(3) [OF True] obtain seg gt p
      where r: "site_record le c i = Inr (seg, gt, p)"
        and s1: "s1 = \<lparr>segment_id = segment_id s @ [seg],
                        groundtruth_id = groundtruth_id s @ [gt], xyz = xyz s @ [p]\<rparr>"
      by blast
    from IH obtain recs
      where "map_err (site_record le c)
               (filter (\<lambda>i. is_merge c i \<and> is_reviewed c i) idxs) = Inr recs"
        and "segment_id s' = segment_id s1 @ map fst recs"
        and "groundtruth_id s' = groundtruth_id s1 @ map (fst \<circ> snd) recs"
        and "xyz s' = xyz s1 @ map (snd \<circ> snd) recs"
      by blast
    then have "map_err (site_record le c)
                 (filter (\<lambda>i. is_merge c i \<and> is_reviewed c i) (i # idxs))
               = Inr ((seg, gt, p) # recs)
             \<and> segment_id s' = segment_id s @ map fst ((seg, gt, p) # recs)
             \<and> groundtruth_id s' = groundtruth_id s @ map (fst \<circ> snd) ((seg, gt, p) # recs)
             \<and> xyz s' = xyz s @ map (snd \<circ> snd) ((seg, gt, p) # recs)"
      using True r s1 by (simp add: bind_def)
    then show ?thesis using IH b(1) True by (simp del: map_err.simps)
  next
    case False
    then show ?thesis using IH b(1) b(2) [OF False] by auto
  qed
qed

lemma example_sites:
  "find_confirmed_merge_sites example_literal_eval example_client [1, 2, 3] =
     Inr (\<lparr>segment_id = [PStr ''7''], groundtruth_id = [PStr ''N001''], xyz = [(1, 2, 3)]\<rparr>, 2)"
  by code_simp

text \<open>
  C4. When \<open>find_confirmed_merge_sites\<close> returns, the reviewed total it returns (the
  number its caller divides by for the success ratio of the parent) counts every row
  whose "Reviewed?" cell is truthy, confirmed or not, and the records it returns are
  those of the rows on which both "Merge Confirmation" and "Reviewed?" are truthy, in
  row order, and no others. A row that is reviewed and not confirmed is therefore in the
  count and not in the records.
\<close>

theorem find_confirmed_merge_sites_counts:
  assumes "find_confirmed_merge_sites literal_eval smartsheet_client idxs = Inr (s, n)"
  shows "n = length (filter (is_reviewed smartsheet_client) idxs)
     \<and> (\<exists>recs. map_err (site_record literal_eval smartsheet_client)
                  (filter (\<lambda>i. is_merge smartsheet_client i \<and> is_reviewed smartsheet_client i)
                     idxs) = Inr recs
          \<and> segment_id s = map fst recs
          \<and> groundtruth_id s = map (fst \<circ> snd) recs
          \<and> xyz s = map (snd \<circ> snd) recs)"
  using find_confirmed_loop_spec [OF assms [unfolded find_confirmed_merge_sites_def]] by simp

theorem find_confirmed_merge_sites_counts_witness:
  "find_confirmed_merge_sites example_literal_eval example_client [1, 2, 3] =
     Inr (\<lparr>segment_id = [PStr ''7''], groundtruth_id = [PStr ''N001''], xyz = [(1, 2, 3)]\<rparr>, 2)
   \<and> is_reviewed example_client 2 \<and> \<not> is_merge example_client 2
   \<and> filter (is_reviewed example_client) [1, 2, 3] = [1, 2]
   \<and> filter (\<lambda>i. is_merge example_client i \<and> is_reviewed example_client i) [1, 2, 3] = [1]
   \<and> (2::nat) = length (filter (is_reviewed example_client) [1, 2, 3])"
proof -
  have "is_reviewed example_client 2 \<and> \<not> is_merge example_client 2"
    by code_simp
  moreover have "filter (is_reviewed example_client) [1, 2, 3] = [1, 2]"
    by code_simp
  moreover have
    "filter (\<lambda>i. is_merge example_client i \<and> is_reviewed example_client i) [1, 2, 3] = [1]"
    by code_simp
  ultimately show ?thesis
    using example_sites find_confirmed_merge_sites_counts [OF example_sites] by simp
qed


section \<open>Properties of \<open>s3_util\<close>\<close>

lemma sublist_str_lower: "sublist t s \<Longrightarrow> sublist (str_lower t) (str_lower s)"
  unfolding str_lower_def by (rule map_mono_sublist)

text \<open>
  C7. A prefix with a substring that reads \<open>test\<close> once lowered (\<open>test\<close>, \<open>TEST\<close>,
  \<open>Test\<close>, ...) is rejected by \<open>is_valid_img_prefix\<close>, whatever the bucket holds and
  whether or not the prefix contains the brain identifier.
\<close>

theorem is_valid_img_prefix_rejects_test:
  assumes "sublist t pfx" and "str_lower t = ''test''"
  shows "is_valid_img_prefix s3 bucket_name pfx brain_id = Inr False"
proof -
  have "sublist ''test'' (str_lower pfx)"
    using sublist_str_lower [OF assms(1)] assms(2) by simp
  then show ?thesis
    by (simp add: is_valid_img_prefix_def)
qed

theorem is_valid_img_prefix_rejects_test_witness:
  "sublist ''TEST'' ''exaSPIM_653159_TEST/'' \<and> str_lower ''TEST'' = ''test''
   \<and> sublist ''653159'' ''exaSPIM_653159_TEST/''
   \<and> is_valid_img_prefix example_s3 ''aind-open-data'' ''exaSPIM_653159_TEST/'' ''653159''
       = Inr False"
proof -
  have a: "sublist ''TEST'' ''exaSPIM_653159_TEST/''" by code_simp
  have b: "str_lower ''TEST'' = ''test''" by code_simp
  have c: "sublist ''653159'' ''exaSPIM_653159_TEST/''" by code_simp
  show ?thesis
    using a b c is_valid_img_prefix_rejects_test [OF a b, of example_s3 "''aind-open-data''" "''653159''"]
    by simp
qed

lemma fold_max_gt: "k < fold max ys (x::int) \<longleftrightarrow> (\<exists>d\<in>set (x # ys). k < d)"
  by (induction ys arbitrary: x) (auto simp: max_def)

text \<open>
  C6. \<open>is_shape_plausible\<close> never raises: it returns a boolean at every prefix and every
  behaviour of the array store. When opening level 0 raises, the result is false. The
  result is true exactly when level 0 opens and one of its dimensions exceeds 25000.
\<close>

theorem is_shape_plausible_total:
  "(\<exists>b. is_shape_plausible zarr_open pfx = Inr b)
   \<and> (\<forall>e. zarr_open (path_join pfx ''0'') = Inl e \<longrightarrow>
          is_shape_plausible zarr_open pfx = Inr False)
   \<and> (is_shape_plausible zarr_open pfx = Inr True \<longleftrightarrow>
        (\<exists>shape. zarr_open (path_join pfx ''0'') = Inr shape \<and> (\<exists>d\<in>set shape. 25000 < d)))"
  by (auto simp: is_shape_plausible_def is_shape_plausible_try_def bind_def np_max_def fold_max_gt
           split: sum.splits bool.splits list.splits)

theorem is_shape_plausible_total_witness:
  "example_zarr_open (path_join ''s3://aind-open-data/exaSPIM_653159_a/fused.zarr'' ''0'')
     = Inr [1, 1, 30000, 20000, 40000]
   \<and> is_shape_plausible example_zarr_open ''s3://aind-open-data/exaSPIM_653159_a/fused.zarr''
     = Inr True
   \<and> example_zarr_open (path_join ''s3://aind-open-data/exaSPIM_653159_a'' ''0'')
     = Inl (External ''PathNotFoundError'')
   \<and> is_shape_plausible example_zarr_open ''s3://aind-open-data/exaSPIM_653159_a''
     = Inr False"
proof -
  have a: "example_zarr_open (path_join ''s3://aind-open-data/exaSPIM_653159_a/fused.zarr'' ''0'')
             = Inr [1, 1, 30000, 20000, 40000]"
    by code_simp
  have b: "example_zarr_open (path_join ''s3://aind-open-data/exaSPIM_653159_a'' ''0'')
             = Inl (External ''PathNotFoundError'')"
    by code_simp
  have "\<exists>d\<in>set [1, 1, 30000, 20000, 40000::int]. 25000 < d" by simp
  with a have "is_shape_plausible example_zarr_open
                 ''s3://aind-open-data/exaSPIM_653159_a/fused.zarr'' = Inr True"
    using is_shape_plausible_total
            [of example_zarr_open "''s3://aind-open-data/exaSPIM_653159_a/fused.zarr''"]
    by blast
  moreover have "is_shape_plausible example_zarr_open ''s3://aind-open-data/exaSPIM_653159_a''
                   = Inr False"
    using b is_shape_plausible_total
            [of example_zarr_open "''s3://aind-open-data/exaSPIM_653159_a''"]
    by blast
  ultimately show ?thesis using a b by simp
qed

lemma map_err_Inr_set:
  "map_err f xs = Inr ys \<Longrightarrow> y \<in> set ys \<Longrightarrow> \<exists>x\<in>set xs. f x = Inr y"
  by (induction xs arbitrary: ys) (auto simp: bind_def split: sum.splits)

text \<open>
  Where \<open>exists_in_prefix\<close> finds \<open>fused.zarr\<close>, an accepted prefix has all eight levels
  among the directories listed under it.
\<close>

lemma is_valid_img_prefix_levels:
  assumes "is_valid_img_prefix s3 bucket_name pfx brain_id = Inr True"
    and "exists_in_prefix s3 bucket_name pfx ''fused.zarr''"
    and "l \<in> set levels"
  shows "\<exists>s\<in>set (list_prefixes s3 bucket_name (path_join pfx ''fused.zarr'')).
           getitem (str_split s ''/'') (- 2) = Inr l"
proof -
  from assms(1,2) obtain multiscales
    where m: "map_err (\<lambda>s. getitem (str_split s ''/'') (- 2))
                (list_prefixes s3 bucket_name (path_join pfx ''fused.zarr'')) = Inr multiscales"
      and a: "list_all (\<lambda>s. s \<in> set multiscales) levels"
    by (auto simp: is_valid_img_prefix_def Let_def bind_def split: if_splits sum.splits)
  from a assms(3) have "l \<in> set multiscales" by (simp add: list_all_iff)
  from map_err_Inr_set [OF m this] show ?thesis .
qed

text \<open>
  C1 (a prefix accepted by \<open>is_valid_img_prefix\<close> has the levels 0 to 7 in its pyramid
  directory). The code accepts without them: whenever \<open>exists_in_prefix\<close> finds no
  \<open>fused.zarr\<close> under a prefix that contains the identifier and not \<open>test\<close>,
  \<open>is_valid_img_prefix\<close> returns true and no level is looked at, against checks 3 and 4
  of its docstring.
\<close>

theorem is_valid_img_prefix_without_fused_zarr:
  assumes "sublist brain_id pfx" and "\<not> sublist ''test'' (str_lower pfx)"
    and "\<not> exists_in_prefix s3 bucket_name pfx ''fused.zarr''"
  shows "is_valid_img_prefix s3 bucket_name pfx brain_id = Inr True"
  using assms by (simp add: is_valid_img_prefix_def)

text \<open>
  Two inputs: a directory with no \<open>fused.zarr\<close> at all, and the prefix
  \<open>exaSPIM_653159_a/fusion\<close> as \<open>find_img_prefix\<close> builds it, whose \<open>fused.zarr\<close> has the
  levels 0 to 6 and lacks level 7.
\<close>

theorem is_valid_img_prefix_without_fused_zarr_witness:
  "\<not> exists_in_prefix s3_without_zarr ''aind-open-data'' ''exaSPIM_653159_a/'' ''fused.zarr''
   \<and> list_prefixes s3_without_zarr ''aind-open-data''
        (path_join ''exaSPIM_653159_a/'' ''fused.zarr'') = []
   \<and> is_valid_img_prefix s3_without_zarr ''aind-open-data'' ''exaSPIM_653159_a/'' ''653159''
        = Inr True
   \<and> \<not> exists_in_prefix s3_fusion_layout ''aind-open-data'' ''exaSPIM_653159_a/fusion''
          ''fused.zarr''
   \<and> list_prefixes s3_fusion_layout ''aind-open-data''
        (path_join ''exaSPIM_653159_a/fusion'' ''fused.zarr'')
        = [''exaSPIM_653159_a/fusion/fused.zarr/0/'', ''exaSPIM_653159_a/fusion/fused.zarr/1/'',
           ''exaSPIM_653159_a/fusion/fused.zarr/2/'', ''exaSPIM_653159_a/fusion/fused.zarr/3/'',
           ''exaSPIM_653159_a/fusion/fused.zarr/4/'', ''exaSPIM_653159_a/fusion/fused.zarr/5/'',
           ''exaSPIM_653159_a/fusion/fused.zarr/6/'']
   \<and> is_valid_img_prefix s3_fusion_layout ''aind-open-data'' ''exaSPIM_653159_a/fusion''
        ''653159'' = Inr True"
proof -
  have a: "sublist ''653159'' ''exaSPIM_653159_a/''" by code_simp
  have b: "\<not> sublist ''test'' (str_lower ''exaSPIM_653159_a/'')" by code_simp
  have c: "\<not> exists_in_prefix s3_without_zarr ''aind-open-data'' ''exaSPIM_653159_a/''
               ''fused.zarr''"
    by code_simp
  have d: "list_prefixes s3_without_zarr ''aind-open-data''
             (path_join ''exaSPIM_653159_a/'' ''fused.zarr'') = []"
    by code_simp
  have a': "sublist ''653159'' ''exaSPIM_653159_a/fusion''" by code_simp
  have b': "\<not> sublist ''test'' (str_lower ''exaSPIM_653159_a/fusion'')" by code_simp
  have c': "\<not> exists_in_prefix s3_fusion_layout ''aind-open-data'' ''exaSPIM_653159_a/fusion''
                ''fused.zarr''"
    by code_simp
  have d': "list_prefixes s3_fusion_layout ''aind-open-data''
              (path_join ''exaSPIM_653159_a/fusion'' ''fused.zarr'')
            = [''exaSPIM_653159_a/fusion/fused.zarr/0/'', ''exaSPIM_653159_a/fusion/fused.zarr/1/'',
               ''exaSPIM_653159_a/fusion/fused.zarr/2/'', ''exaSPIM_653159_a/fusion/fused.zarr/3/'',
               ''exaSPIM_653159_a/fusion/fused.zarr/4/'', ''exaSPIM_653159_a/fusion/fused.zarr/5/'',
               ''exaSPIM_653159_a/fusion/fused.zarr/6/'']"
    by code_simp
  show ?thesis
    using c d c' d' is_valid_img_prefix_without_fused_zarr [OF a b c]
      is_valid_img_prefix_without_fused_zarr [OF a' b' c']
    by simp
qed

lemma list_bucket_prefixes_loop_listing:
  "listing s3 bucket_name continuation_token pages \<Longrightarrow>
   list_bucket_prefixes_loop s3 bucket_name keyword pfxs continuation_token =
     Some (pfxs @ concat (map (collect_prefixes keyword) pages))"
proof (induction arbitrary: pfxs rule: listing.induct)
  case (last_page continuation_token)
  then show ?case
    by (subst list_bucket_prefixes_loop.simps) (simp add: Let_def)
next
  case (next_page continuation_token pages)
  show ?case
    by (subst list_bucket_prefixes_loop.simps) (simp add: Let_def next_page)
qed

text \<open>
  \<open>list_bucket_prefixes\<close> follows the continuation tokens: when the service answers a
  finite sequence of pages, it returns the matching directories of all of them, in
  page order.
\<close>

lemma list_bucket_prefixes_all_pages:
  "listing s3 bucket_name None pages \<Longrightarrow>
   list_bucket_prefixes s3 bucket_name keyword =
     Some (concat (map (collect_prefixes keyword) pages))"
  by (simp add: list_bucket_prefixes_def list_bucket_prefixes_loop_listing)

text \<open>
  At that bucket the whole search returns the candidate: \<open>find_img_prefix\<close> finds the
  \<open>fusion\<close> directory, the validity check accepts the joined prefix, and level 0 opens.
\<close>

lemma fusion_layout_candidate:
  "find_img_prefix s3_fusion_layout example_zarr_open ''653159'' =
     Some (Inr [''s3://aind-open-data/exaSPIM_653159_a/fusion/fused.zarr''])"
proof -
  have l: "listing s3_fusion_layout ''aind-open-data'' None
             [list_objects_v2 s3_fusion_layout (list_kwargs ''aind-open-data'' None)]"
    by (rule listing.last_page) (simp add: s3_fusion_layout_def)
  have "collect_prefixes (Some ''exaspim_653159'')
          (list_objects_v2 s3_fusion_layout (list_kwargs ''aind-open-data'' None))
        = [''exaSPIM_653159_a/'']"
    by code_simp
  then have "list_bucket_prefixes s3_fusion_layout ''aind-open-data''
               (Some (''exaspim_'' @ ''653159'')) = Some [''exaSPIM_653159_a/'']"
    using list_bucket_prefixes_all_pages [OF l, of "Some ''exaspim_653159''"] by simp
  moreover have "find_img_prefix_loop s3_fusion_layout example_zarr_open ''653159''
                   [''exaSPIM_653159_a/''] []
                 = Inr [''s3://aind-open-data/exaSPIM_653159_a/fusion/fused.zarr'']"
    by code_simp
  ultimately show ?thesis by (simp add: find_img_prefix_def)
qed

lemma s3_two_pages_listing:
  "listing s3_two_pages ''bucket'' None
     [list_objects_v2 s3_two_pages (list_kwargs ''bucket'' None),
      list_objects_v2 s3_two_pages (list_kwargs ''bucket'' (Some ''page2''))]"
proof -
  have "listing s3_two_pages ''bucket'' (Some ''page2'')
          [list_objects_v2 s3_two_pages (list_kwargs ''bucket'' (Some ''page2''))]"
    by (rule listing.last_page) (simp add: s3_two_pages_def list_kwargs_def)
  then have "listing s3_two_pages ''bucket''
          (NextContinuationToken (list_objects_v2 s3_two_pages (list_kwargs ''bucket'' None)))
          [list_objects_v2 s3_two_pages (list_kwargs ''bucket'' (Some ''page2''))]"
    by (simp add: s3_two_pages_def list_kwargs_def)
  then show ?thesis
    by (rule listing.next_page [rotated]) (simp add: s3_two_pages_def list_kwargs_def)
qed

text \<open>
  C2 (both listing operations return the directories of all pages). This holds of
  \<open>list_bucket_prefixes\<close> and fails of \<open>list_prefixes\<close>, which sends one request and
  never a continuation token. At the service that answers in two
  pages, \<open>list_bucket_prefixes\<close> returns the directories of both pages and
  \<open>list_prefixes\<close> returns the directory of the first page only, although that page
  is truncated and the page of its token holds another directory.
\<close>

theorem list_prefixes_first_page_only:
  "list_bucket_prefixes s3_two_pages ''bucket'' None = Some [''a/'', ''b/'']
   \<and> list_prefixes s3_two_pages ''bucket'' ''x'' = [''x/a/'']
   \<and> IsTruncated (list_objects_v2 s3_two_pages
        \<lparr>Bucket = ''bucket'', Prefix = Some ''x/'', Delimiter = ''/'',
         ContinuationToken = None\<rparr>)
   \<and> CommonPrefixes (list_objects_v2 s3_two_pages
        \<lparr>Bucket = ''bucket'', Prefix = Some ''x/'', Delimiter = ''/'',
         ContinuationToken = Some ''page2''\<rparr>) = Some [''x/b/'']"
proof -
  have "list_bucket_prefixes s3_two_pages ''bucket'' None = Some [''a/'', ''b/'']"
    using list_bucket_prefixes_all_pages [OF s3_two_pages_listing, of None]
    by (simp add: collect_prefixes_def keyword_matches_def get_or_empty_def
          s3_two_pages_def list_kwargs_def)
  moreover have "list_prefixes s3_two_pages ''bucket'' ''x'' = [''x/a/'']"
    by code_simp
  ultimately show ?thesis
    by (simp add: s3_two_pages_def get_or_empty_def)
qed

lemma example_s3_listing:
  "listing example_s3 ''aind-open-data'' None
     [list_objects_v2 example_s3 (list_kwargs ''aind-open-data'' None)]"
  by (rule listing.last_page) (simp add: example_s3_def list_kwargs_def)

lemma example_s3_top:
  "list_objects_v2 example_s3 (list_kwargs ''aind-open-data'' None) =
     \<lparr>CommonPrefixes =
        Some [''exaSPIM_653159_a/'', ''exaSPIM_700000_a/'', ''exaSPIM_700000_b/''],
      Contents = None, IsTruncated = False, NextContinuationToken = None\<rparr>"
  by (simp add: example_s3_def list_kwargs_def)

lemma example_one_candidate:
  "find_img_prefix example_s3 example_zarr_open ''653159'' =
     Some (Inr [''s3://aind-open-data/exaSPIM_653159_a/fused.zarr''])"
proof -
  have "collect_prefixes (Some ''exaspim_653159'')
          (list_objects_v2 example_s3 (list_kwargs ''aind-open-data'' None))
        = [''exaSPIM_653159_a/'']"
    unfolding example_s3_top by code_simp
  then have "list_bucket_prefixes example_s3 ''aind-open-data'' (Some (''exaspim_'' @ ''653159''))
             = Some [''exaSPIM_653159_a/'']"
    using list_bucket_prefixes_all_pages [OF example_s3_listing, of "Some ''exaspim_653159''"]
    by simp
  moreover have "find_img_prefix_loop example_s3 example_zarr_open ''653159''
                   [''exaSPIM_653159_a/''] []
                 = Inr [''s3://aind-open-data/exaSPIM_653159_a/fused.zarr'']"
    by code_simp
  ultimately show ?thesis by (simp add: find_img_prefix_def)
qed

lemma example_two_candidates:
  "find_img_prefix example_s3 example_zarr_open ''700000'' =
     Some (Inr [''s3://aind-open-data/exaSPIM_700000_a/fused.zarr'',
                ''s3://aind-open-data/exaSPIM_700000_b/fused.zarr''])"
proof -
  have "collect_prefixes (Some ''exaspim_700000'')
          (list_objects_v2 example_s3 (list_kwargs ''aind-open-data'' None))
        = [''exaSPIM_700000_a/'', ''exaSPIM_700000_b/'']"
    unfolding example_s3_top by code_simp
  then have "list_bucket_prefixes example_s3 ''aind-open-data'' (Some (''exaspim_'' @ ''700000''))
             = Some [''exaSPIM_700000_a/'', ''exaSPIM_700000_b/'']"
    using list_bucket_prefixes_all_pages [OF example_s3_listing, of "Some ''exaspim_700000''"]
    by simp
  moreover have "find_img_prefix_loop example_s3 example_zarr_open ''700000''
                   [''exaSPIM_700000_a/'', ''exaSPIM_700000_b/''] []
                 = Inr [''s3://aind-open-data/exaSPIM_700000_a/fused.zarr'',
                        ''s3://aind-open-data/exaSPIM_700000_b/fused.zarr'']"
    by code_simp
  ultimately show ?thesis by (simp add: find_img_prefix_def)
qed

lemma example_no_candidate:
  "find_img_prefix example_s3 example_zarr_open ''111111'' = Some (Inr [])"
proof -
  have "collect_prefixes (Some ''exaspim_111111'')
          (list_objects_v2 example_s3 (list_kwargs ''aind-open-data'' None)) = []"
    unfolding example_s3_top by code_simp
  then have "list_bucket_prefixes example_s3 ''aind-open-data'' (Some (''exaspim_'' @ ''111111''))
             = Some []"
    using list_bucket_prefixes_all_pages [OF example_s3_listing, of "Some ''exaspim_111111''"]
    by simp
  then show ?thesis by (simp add: find_img_prefix_def)
qed

text \<open>
  C3. For an identifier that is not in the cache (no cache path is given, or the cache
  file is read and does not hold the identifier), when the search returns the
  candidates \<open>result\<close>: if \<open>result\<close> does not have exactly one element, \<open>get_img_prefix\<close>
  raises the exception whose message is formatted from the whole list \<open>result\<close> (the
  empty list when there is no candidate, both candidates when there are two); if
  \<open>result\<close> is the one candidate \<open>r\<close>, it returns the path of that candidate, which is
  \<open>r\<close> followed by \<open>/\<close>.
\<close>

theorem get_img_prefix_exactly_one:
  assumes "prefix_lookup_path = None \<or> prefix_lookup_path = Some []
           \<or> (\<exists>path prefix_lookup. prefix_lookup_path = Some path \<and> path \<noteq> []
                \<and> read_json js fs path = Inr prefix_lookup \<and> prefix_lookup brain_id = None)"
    and "find_img_prefix s3 zarr_open brain_id = Some (Inr result)"
  shows "(length result \<noteq> 1 \<longrightarrow>
            get_img_prefix js s3 zarr_open fs brain_id prefix_lookup_path
              = Some (Inl (Image_Prefixes_Found result)))
         \<and> (\<forall>r. result = [r] \<longrightarrow>
              (\<exists>fs'. get_img_prefix js s3 zarr_open fs brain_id prefix_lookup_path
                 = Some (Inr (r @ ''/'', fs'))))"
proof -
  have several:
    "find_prefix_path js s3 zarr_open fs brain_id cache
       = Some (Inl (Image_Prefixes_Found result))" if "length result \<noteq> 1" for cache
    using assms(2) that
    by (cases result rule: list.exhaust; cases "tl result")
       (auto simp: find_prefix_path_def split: list.splits)
  have one_no_cache:
    "find_prefix_path js s3 zarr_open fs brain_id None = Some (Inr (r @ ''/'', fs))"
    if "result = [r]" for r
    using assms(2) that by (simp add: find_prefix_path_def)
  have one_cache:
    "\<exists>fs'. find_prefix_path js s3 zarr_open fs brain_id (Some (path, prefix_lookup))
            = Some (Inr (r @ ''/'', fs'))"
    if "result = [r]" and "path \<noteq> []" and "read_json js fs path = Inr x"
    for r path prefix_lookup x
  proof -
    from that(2,3) have "files fs path \<noteq> None"
      by (auto simp: read_json_def open_read_def bind_def split: option.splits)
    with that(2) have "\<exists>fs0. open_write fs path = Inr fs0"
      by (simp add: open_write_def)
    then show ?thesis
      using assms(2) that(1)
      by (auto simp: find_prefix_path_def write_json_def bind_def Let_def)
  qed
  from assms(1) consider
      "prefix_lookup_path = None" | "prefix_lookup_path = Some []"
    | path prefix_lookup where "prefix_lookup_path = Some path" "path \<noteq> []"
        "read_json js fs path = Inr prefix_lookup" "prefix_lookup brain_id = None"
    by blast
  then show ?thesis
  proof cases
    case 1
    then show ?thesis
      using several [of None] one_no_cache by (simp add: get_img_prefix_def)
  next
    case 2
    then show ?thesis
      using several [of None] one_no_cache by (simp add: get_img_prefix_def)
  next
    case 3
    then show ?thesis
      using several [of "Some (path, prefix_lookup)"]
        one_cache [OF _ 3(2) 3(3), of _ prefix_lookup]
      by (simp add: get_img_prefix_def)
  qed
qed

theorem get_img_prefix_exactly_one_witness:
  "get_img_prefix example_json example_s3 example_zarr_open no_files ''111111'' None
     = Some (Inl (Image_Prefixes_Found []))
   \<and> get_img_prefix example_json example_s3 example_zarr_open no_files ''700000'' None
     = Some (Inl (Image_Prefixes_Found
         [''s3://aind-open-data/exaSPIM_700000_a/fused.zarr'',
          ''s3://aind-open-data/exaSPIM_700000_b/fused.zarr'']))
   \<and> read_json example_json lookup_file ''lookup.json'' = Inr Map.empty
   \<and> (\<exists>fs'. get_img_prefix example_json example_s3 example_zarr_open
               lookup_file ''653159'' (Some ''lookup.json'')
         = Some (Inr (''s3://aind-open-data/exaSPIM_653159_a/fused.zarr/'', fs')))"
proof -
  have r: "read_json example_json lookup_file ''lookup.json'' = Inr Map.empty"
    by (simp add: read_json_def open_read_def bind_def lookup_file_def example_json_def)
  then have miss:
    "Some ''lookup.json'' = None \<or> Some ''lookup.json'' = Some []
     \<or> (\<exists>path prefix_lookup. Some ''lookup.json'' = Some path \<and> path \<noteq> []
          \<and> read_json example_json lookup_file path = Inr prefix_lookup
          \<and> prefix_lookup ''653159'' = None)"
    by simp
  have "get_img_prefix example_json example_s3 example_zarr_open no_files ''111111'' None
          = Some (Inl (Image_Prefixes_Found []))"
    using get_img_prefix_exactly_one [OF _ example_no_candidate, of None example_json no_files]
    by simp
  moreover
  have "get_img_prefix example_json example_s3 example_zarr_open no_files ''700000'' None
          = Some (Inl (Image_Prefixes_Found
              [''s3://aind-open-data/exaSPIM_700000_a/fused.zarr'',
               ''s3://aind-open-data/exaSPIM_700000_b/fused.zarr'']))"
    using get_img_prefix_exactly_one [OF _ example_two_candidates, of None example_json no_files]
    by simp
  moreover
  have "\<exists>fs'. get_img_prefix example_json example_s3 example_zarr_open
               lookup_file ''653159'' (Some ''lookup.json'')
         = Some (Inr (''s3://aind-open-data/exaSPIM_653159_a/fused.zarr/'', fs'))"
    using get_img_prefix_exactly_one [OF miss example_one_candidate]
    by simp
  ultimately show ?thesis using r by simp
qed

section \<open>Properties of \<open>io_util\<close>\<close>

lemma short_escape_decodes:
  "map_of short_escapes c = Some e \<Longrightarrow> e \<noteq> CHR ''u'' \<and> map_of backslash_table e = Some c"
  by (auto simp: short_escapes_def backslash_table_def split: if_splits)

lemma short_escape_None:
  "map_of short_escapes c = None \<Longrightarrow> c \<noteq> dquote \<and> c \<noteq> backslash"
  by (auto simp: short_escapes_def dquote_def backslash_def split: if_splits)

lemma hex_val_digit: "k < 16 \<Longrightarrow> hex_val (''0123456789abcdef'' ! k) = Some k"
proof -
  have "list_all (\<lambda>k. hex_val (''0123456789abcdef'' ! k) = Some k) [0..<16]"
    by code_simp
  then show "k < 16 \<Longrightarrow> hex_val (''0123456789abcdef'' ! k) = Some k"
    by (simp add: list_all_iff)
qed

lemma decode_u_hex2: "decode_u (''00'' @ hex2 c) = Some c"
proof -
  have z: "hex_val CHR ''0'' = Some 0" by code_simp
  have "(of_char c :: nat) < 256" by simp
  then have a: "(of_char c :: nat) div 16 < 16" and b: "(of_char c :: nat) mod 16 < 16"
    by arith+
  show ?thesis
    using hex_val_digit [OF a] hex_val_digit [OF b] z
    by (simp add: decode_u_def hex2_def Let_def)
qed

text \<open>Reading an escaped character gives the character back.\<close>

lemma scanstring_escape:
  "scanstring (escape_char c @ t) = map_option (apfst ((#) c)) (scanstring t)"
proof (cases "map_of short_escapes c")
  case (Some e)
  with short_escape_decodes [OF Some] show ?thesis
    by (auto simp: escape_char_def dquote_def backslash_def)
next
  case None
  note n = short_escape_None [OF None]
  show ?thesis
  proof (cases "c < CHR '' '' \<or> CHR ''~'' < c")
    case True
    then show ?thesis
      using None n decode_u_hex2 [of c]
      by (simp add: escape_char_def dquote_def backslash_def hex2_def)
  next
    case False
    then show ?thesis
      using None n by (simp add: escape_char_def)
  qed
qed

lemma scanstring_quoted:
  "scanstring (concat (map escape_char s) @ dquote # t) = Some (s, t)"
  by (induction s) (simp_all add: scanstring_escape)

lemma skip_ws_nonws:
  "c \<notin> set [CHR '' '', CHR 0x09, CHR 0x0A, CHR 0x0D] \<Longrightarrow> skip_ws (c # s) = c # s"
  by (simp add: skip_ws_def)

lemma skip_ws_space: "skip_ws (CHR '' '' # s) = skip_ws s"
  by (simp add: skip_ws_def)

lemma parse_member_end:
  "parse_members (member (k, v) @ CHR ''}'' # t) = Some ([(k, v)], t)"
  by (subst parse_members.simps)
     (simp add: member_def quote_def skip_ws_nonws skip_ws_space
        scanstring_quoted [unfolded dquote_def] dquote_def)

lemma parse_member_comma:
  "parse_members (member (k, v) @ '', '' @ t) =
     map_option (apfst ((#) (k, v))) (parse_members (skip_ws t))"
  by (subst parse_members.simps)
     (simp add: member_def quote_def skip_ws_nonws skip_ws_space
        scanstring_quoted [unfolded dquote_def] dquote_def)

lemma members_starts: "d \<noteq> [] \<Longrightarrow> \<exists>r. members d = dquote # r"
  by (induction d rule: members.induct) (auto simp: member_def quote_def)

lemma parse_members_dump:
  "d \<noteq> [] \<Longrightarrow> parse_members (members d @ CHR ''}'' # t) = Some (d, t)"
proof (induction d rule: members.induct)
  case 1
  then show ?case by simp
next
  case (2 kv)
  then show ?case using parse_member_end [of "fst kv" "snd kv" t] by simp
next
  case (3 kv kv' rest)
  obtain r where r: "members (kv' # rest) = dquote # r"
    using members_starts [of "kv' # rest"] by auto
  have "skip_ws (members (kv' # rest) @ CHR ''}'' # t) = members (kv' # rest) @ CHR ''}'' # t"
    by (simp add: r skip_ws_nonws dquote_def)
  then show ?case
    using 3 parse_member_comma [of "fst kv" "snd kv" "members (kv' # rest) @ CHR ''}'' # t"]
    by simp
qed

lemma dict_of_pairs_append:
  "distinct (map fst (a @ d)) \<Longrightarrow> foldl (\<lambda>d (k, v). dict_set d k v) a d = a @ d"
proof (induction d arbitrary: a)
  case Nil
  then show ?case by simp
next
  case (Cons kv d)
  obtain k v where kv: "kv = (k, v)" by (cases kv)
  have "k \<notin> fst ` set a" using Cons.prems kv by auto
  then have "dict_set a k v = a @ [(k, v)]" by (simp add: dict_set_def)
  moreover have "distinct (map fst ((a @ [(k, v)]) @ d))" using Cons.prems kv by simp
  ultimately show ?case using Cons.IH [of "a @ [(k, v)]"] kv by simp
qed

lemma dict_of_pairs_distinct: "distinct (map fst d) \<Longrightarrow> dict_of_pairs d = d"
  using dict_of_pairs_append [of "[]" d] by (simp add: dict_of_pairs_def)

text \<open>
  \<open>json.load\<close> reads every dictionary of strings back from the text \<open>json.dump\<close> writes
  for it.
\<close>

lemma json_loads_dumps: "distinct (map fst d) \<Longrightarrow> json_loads (json_dumps d) = Inr d"
proof (cases "d = []")
  case True
  then show ?thesis
    by (simp add: json_loads_def json_dumps_def skip_ws_nonws dict_of_pairs_def skip_ws_def)
next
  case False
  assume dist: "distinct (map fst d)"
  obtain r where r: "members d = dquote # r" using members_starts [OF False] by auto
  have "parse_members (dquote # r @ ''}'') = Some (d, [])"
    using parse_members_dump [OF False, of "[]"] r by simp
  then show ?thesis
    using dist r
    by (simp add: json_loads_def json_dumps_def skip_ws_nonws dquote_def
          dict_of_pairs_distinct skip_ws_def)
qed

text \<open>
  \<open>write_json\<close> returns exactly where \<open>open(path, "w")\<close> succeeds: at a non-empty path
  that is a file or at which a file can be created. Elsewhere it raises.
\<close>

lemma write_json_returns:
  "(\<exists>fs'. write_json js fs path contents = Inr fs')
     \<longleftrightarrow> path \<noteq> [] \<and> (files fs path \<noteq> None \<or> creatable fs path)"
  by (auto simp: write_json_def open_write_def bind_def)

text \<open>
  C9. For every dictionary from identifier strings to path strings, when \<open>write_json\<close>
  on a path returns, \<open>read_json\<close> on the same path returns the dictionary that was
  written, with \<open>json.dump\<close> and \<open>json.load\<close> as the standard library has them.
\<close>

theorem write_json_read_json:
  assumes "distinct (map fst contents)"
    and "write_json python_json fs path contents = Inr fs'"
  shows "read_json python_json fs' path = Inr contents"
proof -
  from assms(2) have "path \<noteq> []"
    and "files fs' path = Some (json_dumps contents)"
    by (auto simp: write_json_def open_write_def bind_def python_json_def split: if_splits)
  then show ?thesis
    using json_loads_dumps [OF assms(1)]
    by (simp add: read_json_def open_read_def bind_def python_json_def)
qed

theorem write_json_read_json_witness:
  \<open>(\<exists>fs'. write_json python_json no_files ''lookup.json''
            [(''653159'', ''s3://aind-open-data/exaSPIM_653159_a/fused.zarr/'')] = Inr fs'
          \<and> files fs' ''lookup.json''
              = Some ''{"653159": "s3://aind-open-data/exaSPIM_653159_a/fused.zarr/"}''
          \<and> read_json python_json fs' ''lookup.json''
              = Inr [(''653159'', ''s3://aind-open-data/exaSPIM_653159_a/fused.zarr/'')])
   \<and> write_json python_json no_files ''missing/lookup.json''
        [(''653159'', ''s3://aind-open-data/exaSPIM_653159_a/fused.zarr/'')] = Inl OSError\<close>
proof -
  let ?d = "[(''653159'', ''s3://aind-open-data/exaSPIM_653159_a/fused.zarr/'')]"
  have d: "distinct (map fst ?d)" by simp
  obtain fs' where w: "write_json python_json no_files ''lookup.json'' ?d = Inr fs'"
    using write_json_returns [of python_json no_files "''lookup.json''" ?d]
    by (auto simp: no_files_def)
  have t: \<open>json_dumps ?d = ''{"653159": "s3://aind-open-data/exaSPIM_653159_a/fused.zarr/"}''\<close>
    by code_simp
  have f: \<open>files fs' ''lookup.json''
             = Some ''{"653159": "s3://aind-open-data/exaSPIM_653159_a/fused.zarr/"}''\<close>
    using w t
    by (auto simp: write_json_def open_write_def bind_def python_json_def split: if_splits)
  have e: "write_json python_json no_files ''missing/lookup.json'' ?d = Inl OSError"
    by (simp add: write_json_def open_write_def bind_def no_files_def)
  show ?thesis
    using w f e write_json_read_json [OF d w] by auto
qed

end
